theory Spec2Isabelle
  imports Main "HOL-Library.Word"
begin

section \<open>JSON values and Go strings\<close>

text \<open>
  The package reads and writes JSON through \<^verbatim>\<open>encoding/json\<close>, \<^verbatim>\<open>encoding/json/v2\<close>
  and \<^verbatim>\<open>jsontext\<close>. A JSON text is modelled by its syntax tree: a number literal with
  integer syntax is \<open>JInt\<close>; one with a fraction or an exponent is \<open>JFloat m e\<close>, the
  number \<open>m\<close> times ten to the power \<open>e\<close>; an object keeps its members in the order of the
  text. A Go \<^verbatim>\<open>string\<close> is a sequence of bytes, here a \<open>string\<close> (a list of 8-bit
  characters).
\<close>

datatype json =
    JNull
  | JBool bool
  | JInt int
  | JFloat int int
  | JString string
  | JArray "json list"
  | JObject "(string \<times> json) list"

subsection \<open>UTF-8\<close>

text \<open>
  \<open>first\<close> is the table of \<^verbatim>\<open>unicode/utf8\<close> for the leading byte of a sequence: the
  length of the sequence and the range accepted for its second byte; length \<open>0\<close> marks a
  byte that starts no sequence. \<open>accepts k lo hi s\<close>: \<open>s\<close> goes on with \<open>k\<close> bytes, the
  first within \<open>lo..hi\<close> and the others continuation bytes.
\<close>

definition byte_in :: "nat \<Rightarrow> nat \<Rightarrow> char \<Rightarrow> bool" where
  "byte_in lo hi c = (lo \<le> (of_char c :: nat) \<and> (of_char c :: nat) \<le> hi)"

definition first :: "char \<Rightarrow> nat \<times> nat \<times> nat" where
  "first b0 =
     (if byte_in 0x00 0x7F b0 then (1, 0x00, 0x00)
      else if byte_in 0xC2 0xDF b0 then (2, 0x80, 0xBF)
      else if byte_in 0xE0 0xE0 b0 then (3, 0xA0, 0xBF)
      else if byte_in 0xE1 0xEC b0 then (3, 0x80, 0xBF)
      else if byte_in 0xED 0xED b0 then (3, 0x80, 0x9F)
      else if byte_in 0xEE 0xEF b0 then (3, 0x80, 0xBF)
      else if byte_in 0xF0 0xF0 b0 then (4, 0x90, 0xBF)
      else if byte_in 0xF1 0xF3 b0 then (4, 0x80, 0xBF)
      else if byte_in 0xF4 0xF4 b0 then (4, 0x80, 0x8F)
      else (0, 0x00, 0x00))"

fun accepts :: "nat \<Rightarrow> nat \<Rightarrow> nat \<Rightarrow> string \<Rightarrow> bool" where
  "accepts 0 lo hi s = True"
| "accepts (Suc k) lo hi [] = False"
| "accepts (Suc k) lo hi (b # s) = (byte_in lo hi b \<and> accepts k 0x80 0xBF s)"

text \<open>
  \<open>rune_size s\<close> is the width of the well-formed sequence at the head of \<open>s\<close>, and \<open>0\<close>
  when there is none (where \<^verbatim>\<open>utf8.DecodeRune\<close> answers \<^verbatim>\<open>RuneError\<close> with width 1).
\<close>

definition rune_size :: "string \<Rightarrow> nat" where
  "rune_size s =
     (case s of
        [] \<Rightarrow> 0
      | b0 # rest \<Rightarrow>
          (case first b0 of
             (n, lo, hi) \<Rightarrow> if 0 < n \<and> accepts (n - 1) lo hi rest then n else 0))"

lemma accepts_length: "accepts k lo hi s \<Longrightarrow> k \<le> length s"
  by (induction k lo hi s rule: accepts.induct) auto

lemma accepts_take: "accepts k lo hi s \<Longrightarrow> accepts k lo hi (take k s @ t)"
  by (induction k lo hi s rule: accepts.induct) auto

lemma rune_size_le: "rune_size s \<le> length s"
proof (cases s)
  case Nil
  then show ?thesis by (simp add: rune_size_def)
next
  case (Cons b0 rest)
  obtain n lo hi where f: "first b0 = (n, lo, hi)" by (cases "first b0") auto
  show ?thesis
  proof (cases "0 < n \<and> accepts (n - 1) lo hi rest")
    case True
    then have "n - 1 \<le> length rest" using accepts_length by blast
    with True Cons f show ?thesis by (simp add: rune_size_def)
  next
    case False
    with Cons f show ?thesis by (auto simp: rune_size_def)
  qed
qed

lemma rune_size_take:
  assumes "rune_size s = n" "0 < n"
  shows "rune_size (take n s @ t) = n"
proof (cases s)
  case Nil
  with assms show ?thesis by (simp add: rune_size_def)
next
  case (Cons b0 rest)
  obtain m lo hi where f: "first b0 = (m, lo, hi)" by (cases "first b0") auto
  from assms Cons f have ok: "0 < m \<and> accepts (m - 1) lo hi rest" and mn: "m = n"
    by (auto simp: rune_size_def split: if_splits)
  from ok have "accepts (m - 1) lo hi (take (m - 1) rest @ t)"
    using accepts_take by blast
  moreover from ok mn Cons have "take n s = b0 # take (m - 1) rest"
    by (cases n) auto
  ultimately show ?thesis using ok mn f by (simp add: rune_size_def)
qed

text \<open>\<^verbatim>\<open>utf8.Valid\<close>: the string is a concatenation of well-formed sequences.\<close>

function utf8_Valid :: "string \<Rightarrow> bool" where
  "utf8_Valid [] = True"
| "utf8_Valid (c # cs) =
     (if rune_size (c # cs) = 0 then False
      else utf8_Valid (drop (rune_size (c # cs)) (c # cs)))"
  by pat_completeness auto
termination
  by (relation "measure length") simp_all

text \<open>
  The encoder of \<^verbatim>\<open>encoding/json\<close> coerces a Go string to valid UTF-8: each byte that
  starts no well-formed sequence is replaced by U+FFFD (the bytes EF BF BD), everything
  else is copied.
\<close>

definition RuneError :: string where
  "RuneError = [char_of (0xEF::nat), char_of (0xBF::nat), char_of (0xBD::nat)]"

function coerce_utf8 :: "string \<Rightarrow> string" where
  "coerce_utf8 [] = []"
| "coerce_utf8 (c # cs) =
     (if rune_size (c # cs) = 0 then RuneError @ coerce_utf8 cs
      else take (rune_size (c # cs)) (c # cs)
             @ coerce_utf8 (drop (rune_size (c # cs)) (c # cs)))"
  by pat_completeness auto
termination
  by (relation "measure length") simp_all

lemma coerce_utf8_Valid: "utf8_Valid s \<Longrightarrow> coerce_utf8 s = s"
proof (induction s rule: coerce_utf8.induct)
  case 1
  then show ?case by simp
next
  case (2 c cs)
  then show ?case by (auto split: if_splits)
qed

lemma utf8_Valid_append_rune:
  assumes "rune_size s = n" "0 < n" "utf8_Valid t"
  shows "utf8_Valid (take n s @ t)"
proof -
  have len: "n \<le> length s" using assms(1) rune_size_le by blast
  have rs: "rune_size (take n s @ t) = n" using assms rune_size_take by blast
  from assms(2) len obtain c cs where tk: "take n s @ t = c # cs"
    by (cases "take n s @ t") auto
  have "drop n (take n s @ t) = t" using len by simp
  with rs tk assms show ?thesis by (metis utf8_Valid.simps(2) less_numeral_extra(3))
qed

lemma rune_size_RuneError: "rune_size (RuneError @ t) = 3"
  by (simp add: rune_size_def first_def byte_in_def RuneError_def numeral_2_eq_2)

lemma utf8_Valid_coerce: "utf8_Valid (coerce_utf8 s)"
proof (induction s rule: coerce_utf8.induct)
  case 1
  then show ?case by simp
next
  case (2 c cs)
  show ?case
  proof (cases "rune_size (c # cs) = 0")
    case True
    have "utf8_Valid (RuneError @ coerce_utf8 cs)"
      using 2(1)[OF True] rune_size_RuneError[of "coerce_utf8 cs"]
      by (simp add: RuneError_def)
    with True show ?thesis by simp
  next
    case False
    then show ?thesis
      using 2(2)[OF False] utf8_Valid_append_rune[of "c # cs" "rune_size (c # cs)"]
      by simp
  qed
qed

lemma utf8_Valid_ascii: "list_all (byte_in 0x00 0x7F) s \<Longrightarrow> utf8_Valid s"
proof (induction s)
  case Nil
  then show ?case by simp
next
  case (Cons c s)
  then have "rune_size (c # s) = 1" by (simp add: rune_size_def first_def)
  with Cons show ?case by simp
qed

text \<open>From here on the two functions are unfolded on demand only.\<close>

declare utf8_Valid.simps(2) [simp del] coerce_utf8.simps(2) [simp del]

subsection \<open>Well-formed JSON texts\<close>

text \<open>
  \<^verbatim>\<open>jsontext\<close> rejects a text with invalid UTF-8 in a string or with two members of one
  object under the same name; both count as syntactic errors of the text.
\<close>

fun json_Valid :: "json \<Rightarrow> bool" where
  "json_Valid (JString s) = utf8_Valid s"
| "json_Valid (JArray vs) = list_all json_Valid vs"
| "json_Valid (JObject ms) =
     (distinct (map fst ms) \<and> list_all (\<lambda>(name, v). utf8_Valid name \<and> json_Valid v) ms)"
| "json_Valid _ = True"

text \<open>
  The argument \<^verbatim>\<open>data []byte\<close> of a decode: bytes that are no JSON text at all, or the
  text of a syntax tree.
\<close>

datatype bytes = NotJSON | JSONText json

section \<open>Errors, panics and the diagnostic logger\<close>

text \<open>
  The errors of the JSON library are the syntactic error of \<^verbatim>\<open>jsontext\<close> and the semantic
  error of \<^verbatim>\<open>json\<close> (a JSON value that the Go type named cannot hold). \<open>Errorf\<close> is the
  value of \<^verbatim>\<open>fmt.Errorf(format, index, err)\<close> for a format with one \<^verbatim>\<open>%d\<close> and one \<^verbatim>\<open>%w\<close>:
  it keeps the format, the number printed and the error wrapped.
\<close>

datatype error =
    SyntacticError
  | SemanticError string
  | Errorf string nat error

fun Unwrap :: "error \<Rightarrow> error option" where
  "Unwrap (Errorf format index err) = Some err"
| "Unwrap _ = None"

text \<open>A call either panics, with the panic's value, or returns.\<close>

datatype 'a result = Panic string | Return 'a

text \<open>
  A \<^verbatim>\<open>*slog.Logger\<close> is \<open>None\<close> when nil. The arguments of a log call are the attributes
  the source passes: an index, an error, or the fallback mapping.
\<close>

datatype slog_Logger = slog_New nat

datatype attr =
    IntAttr nat
  | ErrorAttr error
  | MapAttr "string \<rightharpoonup> json"

type_synonym log_record = "slog_Logger \<times> string \<times> (string \<times> attr) list"

section \<open>Package state\<close>

text \<open>
  The package-level variables \<^verbatim>\<open>registeredExtensions\<close> (extensions.go) and \<^verbatim>\<open>logger\<close>,
  and, as the observable effect of logging, the records handed to \<^verbatim>\<open>Error\<close> of a
  logger, oldest first. A registered prototype is a Go value with a dynamic type; \<open>'p\<close>
  is the type of such values.
\<close>

record 'p globals =
  registeredExtensions :: "'p list"
  logger :: "slog_Logger option"
  records :: "log_record list"

definition RegisterExtension :: "'p \<Rightarrow> 'p globals \<Rightarrow> 'p globals" where
  "RegisterExtension ext g = g\<lparr>registeredExtensions := registeredExtensions g @ [ext]\<rparr>"

definition SetLogger :: "slog_Logger option \<Rightarrow> 'p globals \<Rightarrow> 'p globals" where
  "SetLogger l g = g\<lparr>logger := l\<rparr>"

definition EnsureLogger :: "'p globals \<Rightarrow> slog_Logger option result" where
  "EnsureLogger g =
     (if logger g = None
      then Panic ''Must call rfc9457.SetLogger() with a *slog.Logger before reaching this check.''
      else Return (logger g))"

definition Logger :: "'p globals \<Rightarrow> slog_Logger option result" where
  "Logger g =
     (case EnsureLogger g of
        Panic v \<Rightarrow> Panic v
      | Return _ \<Rightarrow> Return (logger g))"

text \<open>
  \<^verbatim>\<open>(*slog.Logger).Error(msg, args...)\<close>: the record goes to the logger; the method
  dereferences its receiver.
\<close>

definition slog_Error ::
  "slog_Logger option \<Rightarrow> string \<Rightarrow> (string \<times> attr) list \<Rightarrow> 'p globals \<Rightarrow> 'p globals result"
where
  "slog_Error l msg args g =
     (case l of
        None \<Rightarrow> Panic ''invalid memory address or nil pointer dereference''
      | Some h \<Rightarrow> Return (g\<lparr>records := records g @ [(h, msg, args)]\<rparr>))"

section \<open>The problem document\<close>

text \<open>
  \<^verbatim>\<open>type Extension interface{}\<close>: the values that decoding stores are the nil interface, a
  value of a registered type (of type \<open>'v\<close>), and a \<^verbatim>\<open>map[string]any\<close>. The values of the
  mapping are kept as the JSON values they were parsed from: a number stays its
  literal, the rounding to \<^verbatim>\<open>float64\<close> is not part of the model.
\<close>

datatype 'v Extension =
    nil
  | Value 'v
  | MapStringAny "string \<rightharpoonup> json"

type_synonym ErrorTypeURI = string

text \<open>
  The struct \<^verbatim>\<open>responseAlias\<close> that \<^verbatim>\<open>UnmarshalJSON\<close> declares, with its extensions as raw
  JSON values (\<^verbatim>\<open>jsontext.Value\<close>), and the struct \<^verbatim>\<open>Response\<close>. A Go \<^verbatim>\<open>int\<close> is a
  64-bit word.
\<close>

record responseAlias =
  Type :: ErrorTypeURI
  Title :: string
  Status :: "64 word"
  Detail :: string
  Instance :: string
  Extensions :: "json list"

record 'v Response =
  Type :: ErrorTypeURI
  Title :: string
  Status :: "64 word"
  Detail :: string
  Instance :: string
  Extensions :: "'v Extension list"

definition AddExtension :: "'v Extension \<Rightarrow> 'v Response \<Rightarrow> 'v Response" where
  "AddExtension ext r = r\<lparr>Extensions := Extensions r @ [ext]\<rparr>"

section \<open>Decoding with \<^verbatim>\<open>encoding/json/v2\<close>\<close>

text \<open>
  \<^verbatim>\<open>jsonv2.Unmarshal\<close> into the types the source names. A JSON null sets the zero value;
  a string field takes a JSON string, an \<^verbatim>\<open>int\<close> field a number literal of integer syntax
  within the range of the type, a slice field an array. Anything else is a semantic
  error naming the Go type.
\<close>

definition unmarshal_string :: "json \<Rightarrow> error + string" where
  "unmarshal_string v =
     (case v of
        JString s \<Rightarrow> Inr s
      | JNull \<Rightarrow> Inr []
      | _ \<Rightarrow> Inl (SemanticError ''string''))"

definition unmarshal_int :: "json \<Rightarrow> error + 64 word" where
  "unmarshal_int v =
     (case v of
        JInt i \<Rightarrow>
          if - (2 ^ 63) \<le> i \<and> i < 2 ^ 63 then Inr (word_of_int i)
          else Inl (SemanticError ''int'')
      | JNull \<Rightarrow> Inr 0
      | _ \<Rightarrow> Inl (SemanticError ''int''))"

definition unmarshal_values :: "json \<Rightarrow> error + json list" where
  "unmarshal_values v =
     (case v of
        JArray vs \<Rightarrow> Inr vs
      | JNull \<Rightarrow> Inr []
      | _ \<Rightarrow> Inl (SemanticError ''[]jsontext.Value''))"

text \<open>
  A member of the object is stored in the field whose \<^verbatim>\<open>json\<close> tag is its name (names
  match exactly); a member under any other name is skipped.
\<close>

definition unmarshal_member :: "string \<times> json \<Rightarrow> responseAlias \<Rightarrow> error + responseAlias" where
  "unmarshal_member m temp =
     (case m of (name, v) \<Rightarrow>
        if name = ''type'' then
          (case unmarshal_string v of
             Inl err \<Rightarrow> Inl err
           | Inr s \<Rightarrow> Inr (temp\<lparr>responseAlias.Type := s\<rparr>))
        else if name = ''title'' then
          (case unmarshal_string v of
             Inl err \<Rightarrow> Inl err
           | Inr s \<Rightarrow> Inr (temp\<lparr>responseAlias.Title := s\<rparr>))
        else if name = ''status'' then
          (case unmarshal_int v of
             Inl err \<Rightarrow> Inl err
           | Inr n \<Rightarrow> Inr (temp\<lparr>responseAlias.Status := n\<rparr>))
        else if name = ''detail'' then
          (case unmarshal_string v of
             Inl err \<Rightarrow> Inl err
           | Inr s \<Rightarrow> Inr (temp\<lparr>responseAlias.Detail := s\<rparr>))
        else if name = ''instance'' then
          (case unmarshal_string v of
             Inl err \<Rightarrow> Inl err
           | Inr s \<Rightarrow> Inr (temp\<lparr>responseAlias.Instance := s\<rparr>))
        else if name = ''extensions'' then
          (case unmarshal_values v of
             Inl err \<Rightarrow> Inl err
           | Inr vs \<Rightarrow> Inr (temp\<lparr>responseAlias.Extensions := vs\<rparr>))
        else Inr temp)"

fun unmarshal_members :: "(string \<times> json) list \<Rightarrow> responseAlias \<Rightarrow> error + responseAlias" where
  "unmarshal_members [] temp = Inr temp"
| "unmarshal_members (m # ms) temp =
     (case unmarshal_member m temp of
        Inl err \<Rightarrow> Inl err
      | Inr temp' \<Rightarrow> unmarshal_members ms temp')"

definition zero_responseAlias :: responseAlias where
  "zero_responseAlias =
     \<lparr>responseAlias.Type = [], responseAlias.Title = [], responseAlias.Status = 0,
      responseAlias.Detail = [], responseAlias.Instance = [], responseAlias.Extensions = []\<rparr>"

text \<open>\<^verbatim>\<open>jsonv2.Unmarshal(data, &temp)\<close> for the fresh \<^verbatim>\<open>var temp responseAlias\<close>.\<close>

definition jsonv2_Unmarshal_responseAlias :: "bytes \<Rightarrow> error + responseAlias" where
  "jsonv2_Unmarshal_responseAlias data =
     (case data of
        NotJSON \<Rightarrow> Inl SyntacticError
      | JSONText v \<Rightarrow>
          if \<not> json_Valid v then Inl SyntacticError
          else (case v of
                  JObject ms \<Rightarrow> unmarshal_members ms zero_responseAlias
                | JNull \<Rightarrow> Inr zero_responseAlias
                | _ \<Rightarrow> Inl (SemanticError ''rfc9457.responseAlias'')))"

text \<open>
  A value stored in an \<^verbatim>\<open>any\<close> holds its numbers as \<^verbatim>\<open>float64\<close>, and a number literal
  that overflows \<^verbatim>\<open>float64\<close> is a range error of the decode. The largest \<^verbatim>\<open>float64\<close> is
  \<open>2 ^ 1024 - 2 ^ 971\<close>; a literal overflows when its absolute value reaches the
  midpoint between that and \<open>2 ^ 1024\<close>, from where rounding to nearest gives infinity
  (\<^verbatim>\<open>strconv.ParseFloat\<close> reports \<^verbatim>\<open>ErrRange\<close>). A literal that underflows rounds to zero
  without error.
\<close>

definition float64_limit :: int where
  "float64_limit = 2 ^ 1024 - 2 ^ 970"

definition float64_range :: "int \<Rightarrow> int \<Rightarrow> bool" where
  "float64_range m e =
     (if 0 \<le> e then \<bar>m\<bar> * 10 ^ nat e < float64_limit
      else \<bar>m\<bar> < float64_limit * 10 ^ nat (- e))"

fun fits_any :: "json \<Rightarrow> bool" where
  "fits_any (JInt i) = float64_range i 0"
| "fits_any (JFloat m e) = float64_range m e"
| "fits_any (JArray vs) = list_all fits_any vs"
| "fits_any (JObject ms) = list_all (\<lambda>(name, v). fits_any v) ms"
| "fits_any _ = True"

text \<open>
  \<^verbatim>\<open>jsonv2.Unmarshal(raw, &fallback)\<close> for the nil \<^verbatim>\<open>var fallback map[string]any\<close>: an
  object gives the mapping of its members, unless one of its numbers, at any depth,
  overflows \<^verbatim>\<open>float64\<close>; null gives the nil map; any other value is an error.
\<close>

definition jsonv2_Unmarshal_map :: "json \<Rightarrow> error + (string \<rightharpoonup> json)" where
  "jsonv2_Unmarshal_map raw =
     (if \<not> json_Valid raw then Inl SyntacticError
      else (case raw of
              JObject ms \<Rightarrow>
                if fits_any (JObject ms) then Inr (map_of ms)
                else Inl (SemanticError ''float64'')
            | JNull \<Rightarrow> Inr Map.empty
            | _ \<Rightarrow> Inl (SemanticError ''map[string]interface {}'')))"

section \<open>Resolving an extension\<close>

text \<open>
  What \<^verbatim>\<open>unmarshalExtension\<close> reads through \<^verbatim>\<open>reflect\<close>: a \<^verbatim>\<open>reflect.Type\<close> is a type
  of kind pointer, with its element type, or a type of another kind. The registered
  types are any types of the program that uses the package, so the two library calls
  that depend on them are parameters of the model:
  \<^item> \<open>TypeOf\<close> is \<^verbatim>\<open>reflect.TypeOf\<close> on a registered prototype, a value with a dynamic
    type (for the nil interface \<^verbatim>\<open>reflect.TypeOf\<close> is nil and has no kind: nil is not among
    the prototypes of the model);
  \<^item> \<open>Unmarshal_New T raw\<close> is the outcome of \<^verbatim>\<open>newExt := reflect.New(T)\<close> followed by
    \<^verbatim>\<open>jsonv2.Unmarshal(raw, newExt.Interface())\<close>: the error, or else the value
    \<^verbatim>\<open>newExt.Elem().Interface()\<close>.
\<close>

datatype 't reflect_Type = Named 't | Ptr "'t reflect_Type"

record ('p, 't, 'v) reflection =
  TypeOf :: "'p \<Rightarrow> 't reflect_Type"
  Unmarshal_New :: "'t reflect_Type \<Rightarrow> json \<Rightarrow> error + 'v"

text \<open>
  The body of the loop of \<^verbatim>\<open>unmarshalExtension\<close> for one registered prototype: the type
  to instantiate is the element type when the prototype is a pointer, and the raw
  element is parsed into a fresh instance of it.
\<close>

definition trialParse :: "('p, 't, 'v) reflection \<Rightarrow> 'p \<Rightarrow> json \<Rightarrow> error + 'v" where
  "trialParse L registeredExt raw =
     (let registeredType = TypeOf L registeredExt;
          valueType = (case registeredType of Ptr elem \<Rightarrow> elem | Named _ \<Rightarrow> registeredType)
      in Unmarshal_New L valueType raw)"

text \<open>
  The loop over \<^verbatim>\<open>registeredExtensions\<close>: \<open>Some\<close> of the value returned from inside the
  loop, \<open>None\<close> when the loop runs to its end.
\<close>

fun unmarshalRegistered :: "('p, 't, 'v) reflection \<Rightarrow> 'p list \<Rightarrow> json \<Rightarrow> 'v option" where
  "unmarshalRegistered L [] raw = None"
| "unmarshalRegistered L (registeredExt # rest) raw =
     (case trialParse L registeredExt raw of
        Inr newExt \<Rightarrow> Some newExt
      | Inl err \<Rightarrow> unmarshalRegistered L rest raw)"

definition unmarshalExtension ::
  "('p, 't, 'v) reflection \<Rightarrow> json \<Rightarrow> nat \<Rightarrow> 'p globals
     \<Rightarrow> (('v Extension \<times> error option) \<times> 'p globals) result"
where
  "unmarshalExtension L raw index g =
     (case unmarshalRegistered L (registeredExtensions g) raw of
        Some newExt \<Rightarrow> Return ((Value newExt, None), g)
      | None \<Rightarrow>
          (case jsonv2_Unmarshal_map raw of
             Inl err \<Rightarrow>
               Return ((nil, Some (Errorf ''failed to unmarshal extension at index %d: %w'' index err)), g)
           | Inr fallback \<Rightarrow>
               (case Logger g of
                  Panic v \<Rightarrow> Panic v
                | Return l \<Rightarrow>
                    (case slog_Error l ''Extension did not match any registered type, using map[string]any''
                            [(''index'', IntAttr index), (''data'', MapAttr fallback)] g of
                       Panic v \<Rightarrow> Panic v
                     | Return g' \<Rightarrow> Return ((MapStringAny fallback, None), g')))))"

section \<open>\<^verbatim>\<open>UnmarshalJSON\<close>\<close>

text \<open>
  The loop over \<^verbatim>\<open>temp.Extensions\<close>, from index \<open>i\<close> on: the receiver \<open>r\<close> and the package
  state are threaded through.
\<close>

fun UnmarshalJSON_range ::
  "('p, 't, 'v) reflection \<Rightarrow> nat \<Rightarrow> json list \<Rightarrow> 'v Response \<Rightarrow> 'p globals
     \<Rightarrow> ('v Response \<times> 'p globals) result"
where
  "UnmarshalJSON_range L i [] r g = Return (r, g)"
| "UnmarshalJSON_range L i (raw # raws) r g =
     (case unmarshalExtension L raw i g of
        Panic v \<Rightarrow> Panic v
      | Return ((ext, err), g1) \<Rightarrow>
          (case (case err of
                   None \<Rightarrow> Return g1
                 | Some e \<Rightarrow>
                     (case Logger g1 of
                        Panic v \<Rightarrow> Panic v
                      | Return l \<Rightarrow>
                          slog_Error l ''Failed to unmarshal extension''
                            [(''index'', IntAttr i), (''error'', ErrorAttr e)] g1)) of
             Panic v \<Rightarrow> Panic v
           | Return g2 \<Rightarrow>
               UnmarshalJSON_range L (Suc i) raws (r\<lparr>Extensions := Extensions r @ [ext]\<rparr>) g2))"

definition UnmarshalJSON ::
  "('p, 't, 'v) reflection \<Rightarrow> 'v Response \<Rightarrow> bytes \<Rightarrow> 'p globals
     \<Rightarrow> (error option \<times> 'v Response \<times> 'p globals) result"
where
  "UnmarshalJSON L r data g =
     (case jsonv2_Unmarshal_responseAlias data of
        Inl err \<Rightarrow> Return (Some err, r, g)
      | Inr temp \<Rightarrow>
          (case UnmarshalJSON_range L 0 (responseAlias.Extensions temp)
                  (r\<lparr>Type := responseAlias.Type temp,
                     Title := responseAlias.Title temp,
                     Status := responseAlias.Status temp,
                     Detail := responseAlias.Detail temp,
                     Instance := responseAlias.Instance temp,
                     Extensions := []\<rparr>) g of
             Panic v \<Rightarrow> Panic v
           | Return (r', g') \<Rightarrow> Return (None, r', g')))"

section \<open>Encoding with \<^verbatim>\<open>encoding/json\<close>\<close>

text \<open>
  \<^verbatim>\<open>Response\<close> has no \<^verbatim>\<open>MarshalJSON\<close>, so \<^verbatim>\<open>json.Marshal\<close> and the encoder in \<^verbatim>\<open>Write\<close>
  follow the struct tags: one member per field, in the order of the declaration, and a
  field tagged \<^verbatim>\<open>omitempty\<close> is left out when its Go value is empty (an empty string, a
  slice of length 0). A field is described by its name, whether it is tagged
  \<^verbatim>\<open>omitempty\<close>, whether its value is empty, and its encoding.
\<close>

definition struct_members :: "(string \<times> bool \<times> bool \<times> json) list \<Rightarrow> (string \<times> json) list" where
  "struct_members fs =
     map (\<lambda>(name, omitempty, empty, v). (name, v))
       (filter (\<lambda>(name, omitempty, empty, v). \<not> (omitempty \<and> empty)) fs)"

text \<open>The elements of a slice are encoded in order; the first failure ends the encoding.\<close>

fun marshal_elements :: "('e \<Rightarrow> error + json) \<Rightarrow> 'e list \<Rightarrow> error + json list" where
  "marshal_elements enc [] = Inr []"
| "marshal_elements enc (x # xs) =
     (case enc x of
        Inl err \<Rightarrow> Inl err
      | Inr v \<Rightarrow>
          (case marshal_elements enc xs of
             Inl err \<Rightarrow> Inl err
           | Inr vs \<Rightarrow> Inr (v # vs)))"

text \<open>
  \<^verbatim>\<open>json.Marshal(r)\<close> for a \<^verbatim>\<open>*Response\<close>. The encoding of an extension value depends on
  its Go type and is the parameter \<open>enc\<close>.
\<close>

definition json_Marshal :: "('v Extension \<Rightarrow> error + json) \<Rightarrow> 'v Response \<Rightarrow> error + json" where
  "json_Marshal enc r =
     (case marshal_elements enc (Extensions r) of
        Inl err \<Rightarrow> Inl err
      | Inr vs \<Rightarrow>
          Inr (JObject (struct_members
            [(''type'', False, Type r = [], JString (coerce_utf8 (Type r))),
             (''title'', False, Title r = [], JString (coerce_utf8 (Title r))),
             (''status'', False, Status r = 0, JInt (sint (Status r))),
             (''detail'', True, Detail r = [], JString (coerce_utf8 (Detail r))),
             (''instance'', True, Instance r = [], JString (coerce_utf8 (Instance r))),
             (''extensions'', True, Extensions r = [], JArray vs)])))"

section \<open>Registered struct types\<close>

text \<open>
  A family of types to register, for concrete runs of the decoder: structs whose fields
  are of type \<^verbatim>\<open>int\<close>, \<^verbatim>\<open>string\<close> or \<^verbatim>\<open>bool\<close>, each under its JSON name, and pointers to
  them. \<^verbatim>\<open>jsonv2.Unmarshal\<close> stores the members of an object in the fields of their
  names, skips the other members and leaves a field without member at its zero value; a
  JSON null gives the zero struct, or the nil pointer. A prototype is given by its type.
\<close>

datatype field_type = IntField | StringField | BoolField

type_synonym struct_type = "(string \<times> field_type) list"

datatype field_value = IntValue "64 word" | StringValue string | BoolValue bool

datatype govalue = Struct "(string \<times> field_value) list" | Pointer "govalue option"

fun zero_field :: "field_type \<Rightarrow> field_value" where
  "zero_field IntField = IntValue 0"
| "zero_field StringField = StringValue []"
| "zero_field BoolField = BoolValue False"

fun unmarshal_field :: "field_type \<Rightarrow> json \<Rightarrow> error + field_value" where
  "unmarshal_field IntField v = map_sum id IntValue (unmarshal_int v)"
| "unmarshal_field StringField v = map_sum id StringValue (unmarshal_string v)"
| "unmarshal_field BoolField v =
     (case v of
        JBool b \<Rightarrow> Inr (BoolValue b)
      | JNull \<Rightarrow> Inr (BoolValue False)
      | _ \<Rightarrow> Inl (SemanticError ''bool''))"

fun unmarshal_fields :: "struct_type \<Rightarrow> (string \<times> json) list \<Rightarrow> error + (string \<times> field_value) list" where
  "unmarshal_fields [] ms = Inr []"
| "unmarshal_fields ((name, T) # fs) ms =
     (case (case map_of ms name of
              None \<Rightarrow> Inr (zero_field T)
            | Some v \<Rightarrow> unmarshal_field T v) of
        Inl err \<Rightarrow> Inl err
      | Inr x \<Rightarrow>
          (case unmarshal_fields fs ms of
             Inl err \<Rightarrow> Inl err
           | Inr xs \<Rightarrow> Inr ((name, x) # xs)))"

fun unmarshal_type :: "struct_type reflect_Type \<Rightarrow> json \<Rightarrow> error + govalue" where
  "unmarshal_type (Named fs) v =
     (case v of
        JObject ms \<Rightarrow> map_sum id Struct (unmarshal_fields fs ms)
      | JNull \<Rightarrow> Inr (Struct (map (\<lambda>(name, T). (name, zero_field T)) fs))
      | _ \<Rightarrow> Inl (SemanticError ''struct''))"
| "unmarshal_type (Ptr T) v =
     (if v = JNull then Inr (Pointer None)
      else map_sum id (\<lambda>x. Pointer (Some x)) (unmarshal_type T v))"

definition structs :: "(struct_type reflect_Type, struct_type, govalue) reflection" where
  "structs =
     \<lparr>TypeOf = (\<lambda>registeredExt. registeredExt),
      Unmarshal_New = (\<lambda>T raw. if \<not> json_Valid raw then Inl SyntacticError else unmarshal_type T raw)\<rparr>"

section \<open>Vocabulary of the statements\<close>

subsection \<open>Outcome of one element\<close>

text \<open>
  The pair that \<^verbatim>\<open>unmarshalExtension\<close> returns depends on the package state through the
  registry only: \<open>resolve\<close> is that pair, as a function of the registry.
\<close>

definition resolve ::
  "('p, 't, 'v) reflection \<Rightarrow> 'p list \<Rightarrow> json \<Rightarrow> nat \<Rightarrow> 'v Extension \<times> error option" where
  "resolve L reg raw index =
     (case unmarshalRegistered L reg raw of
        Some newExt \<Rightarrow> (Value newExt, None)
      | None \<Rightarrow>
          (case jsonv2_Unmarshal_map raw of
             Inl err \<Rightarrow> (nil, Some (Errorf ''failed to unmarshal extension at index %d: %w'' index err))
           | Inr fallback \<Rightarrow> (MapStringAny fallback, None)))"

text \<open>The two records the decoder writes, and those written for one element.\<close>

definition notice :: "slog_Logger \<Rightarrow> nat \<Rightarrow> (string \<rightharpoonup> json) \<Rightarrow> log_record" where
  "notice l index fallback =
     (l, ''Extension did not match any registered type, using map[string]any'',
      [(''index'', IntAttr index), (''data'', MapAttr fallback)])"

definition failure :: "slog_Logger \<Rightarrow> nat \<Rightarrow> error \<Rightarrow> log_record" where
  "failure l index err =
     (l, ''Failed to unmarshal extension'', [(''index'', IntAttr index), (''error'', ErrorAttr err)])"

definition element_records :: "slog_Logger \<Rightarrow> nat \<Rightarrow> 'v Extension \<times> error option \<Rightarrow> log_record list" where
  "element_records l index outcome =
     (case fst outcome of MapStringAny fallback \<Rightarrow> [notice l index fallback] | _ \<Rightarrow> [])
     @ (case snd outcome of Some err \<Rightarrow> [failure l index err] | None \<Rightarrow> [])"

subsection \<open>Matching a prototype\<close>

text \<open>A registered prototype matches a raw element when its trial parse gives no error.\<close>

definition parses :: "('p, 't, 'v) reflection \<Rightarrow> 'p \<Rightarrow> json \<Rightarrow> bool" where
  "parses L registeredExt raw = (\<not> isl (trialParse L registeredExt raw))"

subsection \<open>Shape of the fixed fields\<close>





subsection \<open>Example inputs\<close>

text \<open>
  A registry with one struct type, \<^verbatim>\<open>struct{Code int; Message string}\<close> under the names
  \<open>code\<close> and \<open>message\<close>, with and without a logger, and a receiver whose fields are set.
\<close>

definition codeMessage :: "struct_type reflect_Type" where
  "codeMessage = Named [(''code'', IntField), (''message'', StringField)]"

definition configured :: "struct_type reflect_Type globals" where
  "configured = \<lparr>registeredExtensions = [codeMessage], logger = Some (slog_New 0), records = []\<rparr>"

definition unconfigured :: "struct_type reflect_Type globals" where
  "unconfigured = \<lparr>registeredExtensions = [codeMessage], logger = None, records = []\<rparr>"

definition receiver :: "govalue Response" where
  "receiver =
     \<lparr>Type = ''about:blank'', Title = ''Earlier'', Status = 500, Detail = ''kept'',
      Instance = ''/earlier'', Extensions = [nil]\<rparr>"

definition status_as_string :: bytes where
  "status_as_string =
     JSONText (JObject
       [(''type'', JString ''urn:test''),
        (''title'', JString ''Test''),
        (''status'', JString ''400''),
        (''extensions'', JArray [JObject [(''code'', JInt 5)], JInt 7])])"

text \<open>
  Two more struct types, \<^verbatim>\<open>*struct{Code int}\<close> and \<^verbatim>\<open>struct{Code string}\<close>, an object that
  the first two types parse and the third does not, and the package state at start.
\<close>

definition codeOnly :: "struct_type reflect_Type" where
  "codeOnly = Ptr (Named [(''code'', IntField)])"

definition codeAsString :: "struct_type reflect_Type" where
  "codeAsString = Named [(''code'', StringField)]"

definition code5 :: json where
  "code5 = JObject [(''code'', JInt 5), (''message'', JString ''x'')]"

definition fresh :: "struct_type reflect_Type globals" where
  "fresh = \<lparr>registeredExtensions = [], logger = None, records = []\<rparr>"

text \<open>
  Two objects that the struct with an \<^verbatim>\<open>int\<close> under \<open>code\<close> does not parse, the second
  with a number beyond the range of \<^verbatim>\<open>float64\<close>, and a document with given extensions
  together with what its fixed fields decode to.
\<close>

definition code_five :: json where
  "code_five = JObject [(''code'', JString ''five'')]"

definition code_1e999 :: json where
  "code_1e999 = JObject [(''code'', JFloat 1 999)]"

definition document :: "json list \<Rightarrow> bytes" where
  "document exts =
     JSONText (JObject
       [(''type'', JString ''urn:test''), (''title'', JString ''Test''), (''status'', JInt 400),
        (''extensions'', JArray exts)])"

definition decoded :: "json list \<Rightarrow> responseAlias" where
  "decoded exts =
     \<lparr>responseAlias.Type = ''urn:test'', responseAlias.Title = ''Test'',
      responseAlias.Status = 400, responseAlias.Detail = [], responseAlias.Instance = [],
      responseAlias.Extensions = exts\<rparr>"

text \<open>
  An encoder for the extension values of the examples: the nil interface and the values
  of the struct types above. No example encodes a mapping, and this encoder is not
  meant for one. Two documents without extensions: one with valid strings, one whose
  type is the single byte FF.
\<close>

fun marshal_value :: "govalue \<Rightarrow> json" where
  "marshal_value (Struct fs) =
     JObject (map (\<lambda>(name, x). (name,
        case x of IntValue n \<Rightarrow> JInt (sint n) | StringValue s \<Rightarrow> JString (coerce_utf8 s)
        | BoolValue b \<Rightarrow> JBool b)) fs)"
| "marshal_value (Pointer None) = JNull"
| "marshal_value (Pointer (Some v)) = marshal_value v"

definition marshal_example :: "govalue Extension \<Rightarrow> error + json" where
  "marshal_example ext =
     (case ext of
        nil \<Rightarrow> Inr JNull
      | Value v \<Rightarrow> Inr (marshal_value v)
      | MapStringAny m \<Rightarrow> Inl (SemanticError ''map[string]interface {}''))"

definition minimal :: "govalue Response" where
  "minimal =
     \<lparr>Type = ''urn:test'', Title = ''Test'', Status = 422, Detail = [], Instance = [],
      Extensions = []\<rparr>"

definition invalid_type :: "govalue Response" where
  "invalid_type =
     \<lparr>Type = [char_of (0xFF :: nat)], Title = ''Test'', Status = 422, Detail = [], Instance = [],
      Extensions = []\<rparr>"

text \<open>
  An element that is no object and that no struct type parses, and the error that
  \<^verbatim>\<open>unmarshalExtension\<close> returns for it at a given index.
\<close>

definition bad :: json where
  "bad = JString ''bad''"

definition bad_error :: "nat \<Rightarrow> error" where
  "bad_error index =
     Errorf ''failed to unmarshal extension at index %d: %w'' index
       (SemanticError ''map[string]interface {}'')"

text \<open>
  What the two objects resolve to under the registry of the examples, and the outcome
  of decoding the three-element array \<open>[code5, bad, code_five]\<close> with a logger: the
  document and the package state.
\<close>

definition code5_value :: govalue where
  "code5_value = Struct [(''code'', IntValue 5), (''message'', StringValue ''x'')]"

definition code_five_map :: "string \<rightharpoonup> json" where
  "code_five_map = map_of [(''code'', JString ''five'')]"

definition three_result :: "govalue Response" where
  "three_result =
     receiver\<lparr>Type := ''urn:test'', Title := ''Test'', Status := 400, Detail := [], Instance := [],
       Extensions := [Value code5_value, nil, MapStringAny code_five_map]\<rparr>"

definition three_state :: "struct_type reflect_Type globals" where
  "three_state =
     configured\<lparr>records :=
       [failure (slog_New 0) 1 (bad_error 1), notice (slog_New 0) 2 code_five_map]\<rparr>"

section \<open>The decoder, step by step\<close>

subsection \<open>Rules for evaluating concrete inputs\<close>

lemmas utf8_eval = rune_size_def first_def byte_in_def numeral_2_eq_2 numeral_3_eq_3

lemmas ascii_eval = utf8_Valid_ascii byte_in_def

lemmas decode_eval =
  jsonv2_Unmarshal_responseAlias_def unmarshal_member_def unmarshal_string_def
  unmarshal_int_def unmarshal_values_def zero_responseAlias_def

lemmas structs_eval = structs_def trialParse_def parses_def

subsection \<open>One element, and the loop with a logger\<close>

lemma Logger_Some: "logger g = Some l \<Longrightarrow> Logger g = Return (Some l)"
  by (simp add: Logger_def EnsureLogger_def)

lemma Logger_None:
  "logger g = None \<Longrightarrow>
   Logger g = Panic ''Must call rfc9457.SetLogger() with a *slog.Logger before reaching this check.''"
  by (simp add: Logger_def EnsureLogger_def)

lemma unmarshalExtension_matched:
  "unmarshalRegistered L (registeredExtensions g) raw = Some v \<Longrightarrow>
   unmarshalExtension L raw index g = Return ((Value v, None), g)"
  by (simp add: unmarshalExtension_def)

lemma unmarshalExtension_failed:
  "unmarshalRegistered L (registeredExtensions g) raw = None \<Longrightarrow>
   jsonv2_Unmarshal_map raw = Inl err \<Longrightarrow>
   unmarshalExtension L raw index g =
     Return ((nil, Some (Errorf ''failed to unmarshal extension at index %d: %w'' index err)), g)"
  by (simp add: unmarshalExtension_def)

lemma unmarshalExtension_fallback:
  "unmarshalRegistered L (registeredExtensions g) raw = None \<Longrightarrow>
   jsonv2_Unmarshal_map raw = Inr fallback \<Longrightarrow> logger g = Some l \<Longrightarrow>
   unmarshalExtension L raw index g =
     Return ((MapStringAny fallback, None), g\<lparr>records := records g @ [notice l index fallback]\<rparr>)"
  by (simp add: unmarshalExtension_def Logger_Some slog_Error_def notice_def)

lemma unmarshalExtension_fallback_nologger:
  "unmarshalRegistered L (registeredExtensions g) raw = None \<Longrightarrow>
   jsonv2_Unmarshal_map raw = Inr fallback \<Longrightarrow> logger g = None \<Longrightarrow>
   unmarshalExtension L raw index g =
     Panic ''Must call rfc9457.SetLogger() with a *slog.Logger before reaching this check.''"
  by (simp add: unmarshalExtension_def Logger_None)

lemma unmarshalExtension_resolve:
  assumes "logger g = Some l"
  shows "unmarshalExtension L raw index g =
           Return (resolve L (registeredExtensions g) raw index,
                   g\<lparr>records := records g @
                        (case resolve L (registeredExtensions g) raw index of
                           (MapStringAny fallback, _) \<Rightarrow> [notice l index fallback]
                         | _ \<Rightarrow> [])\<rparr>)"
proof (cases "unmarshalRegistered L (registeredExtensions g) raw")
  case (Some v)
  then show ?thesis by (simp add: unmarshalExtension_matched resolve_def)
next
  case None
  show ?thesis
  proof (cases "jsonv2_Unmarshal_map raw")
    case (Inl err)
    with None show ?thesis by (simp add: unmarshalExtension_failed resolve_def)
  next
    case (Inr fallback)
    with None assms show ?thesis by (simp add: unmarshalExtension_fallback resolve_def)
  qed
qed


lemma UnmarshalJSON_step:
  assumes "logger g = Some l"
  shows "UnmarshalJSON_range L i (raw # raws) r g =
           UnmarshalJSON_range L (Suc i) raws
             (r\<lparr>Extensions := Extensions r @ [fst (resolve L (registeredExtensions g) raw i)]\<rparr>)
             (g\<lparr>records := records g @ element_records l i (resolve L (registeredExtensions g) raw i)\<rparr>)"
proof -
  obtain ext err where o: "resolve L (registeredExtensions g) raw i = (ext, err)"
    by (cases "resolve L (registeredExtensions g) raw i") auto
  show ?thesis
  proof (cases err)
    case None
    with o assms show ?thesis
      by (cases ext)
        (simp_all add: unmarshalExtension_resolve[OF assms] element_records_def)
  next
    case (Some e)
    with o assms show ?thesis
      by (cases ext)
        (simp_all add: unmarshalExtension_resolve[OF assms] element_records_def
           Logger_Some slog_Error_def failure_def)
  qed
qed

lemma UnmarshalJSON_range_logger:
  assumes "logger g = Some l"
  shows "UnmarshalJSON_range L i raws r g =
           Return
             (r\<lparr>Extensions := Extensions r @
                   map (\<lambda>(j, raw). fst (resolve L (registeredExtensions g) raw j)) (enumerate i raws)\<rparr>,
              g\<lparr>records := records g @
                   concat (map (\<lambda>(j, raw). element_records l j (resolve L (registeredExtensions g) raw j))
                             (enumerate i raws))\<rparr>)"
  using assms
proof (induction raws arbitrary: i r g)
  case Nil
  then show ?case by simp
next
  case (Cons raw raws)
  let ?g = "g\<lparr>records := records g @ element_records l i (resolve L (registeredExtensions g) raw i)\<rparr>"
  have lg: "logger ?g = Some l" using Cons.prems by simp
  show ?case
    by (simp add: UnmarshalJSON_step[OF Cons.prems] Cons.IH[OF lg]
          del: UnmarshalJSON_range.simps)
qed

subsection \<open>The whole decode with a logger\<close>

lemma resolve_unmatched:
  "unmarshalRegistered L reg raw = None \<Longrightarrow> jsonv2_Unmarshal_map raw = Inr fallback \<Longrightarrow>
   resolve L reg raw index = (MapStringAny fallback, None)"
  by (simp add: resolve_def)

lemma resolve_error:
  "resolve L reg raw index = (ext, Some err) \<Longrightarrow> ext = nil"
  by (auto simp: resolve_def split: option.splits sum.splits)

lemma unmarshalExtension_returns:
  assumes "logger g = Some l" and "unmarshalExtension L raw index g = Return (out, g')"
  shows "out = resolve L (registeredExtensions g) raw index"
  using assms(2) by (simp add: unmarshalExtension_resolve[OF assms(1)])

lemma UnmarshalJSON_logger:
  assumes "logger g = Some l" and "jsonv2_Unmarshal_responseAlias data = Inr temp"
  shows "UnmarshalJSON L r data g =
           Return (None,
             r\<lparr>Type := responseAlias.Type temp, Title := responseAlias.Title temp,
               Status := responseAlias.Status temp, Detail := responseAlias.Detail temp,
               Instance := responseAlias.Instance temp,
               Extensions := map (\<lambda>(j, raw). fst (resolve L (registeredExtensions g) raw j))
                               (enumerate 0 (responseAlias.Extensions temp))\<rparr>,
             g\<lparr>records := records g @
                  concat (map (\<lambda>(j, raw). element_records l j (resolve L (registeredExtensions g) raw j))
                            (enumerate 0 (responseAlias.Extensions temp)))\<rparr>)"
  by (simp add: UnmarshalJSON_def assms(2) UnmarshalJSON_range_logger[OF assms(1)])

lemma json_Valid_map:
  "json_Valid (JObject ms) \<Longrightarrow> fits_any (JObject ms) \<Longrightarrow>
   jsonv2_Unmarshal_map (JObject ms) = Inr (map_of ms)"
  by (simp add: jsonv2_Unmarshal_map_def)

lemma enumerate_member: "i < length xs \<Longrightarrow> (i, xs ! i) \<in> set (enumerate 0 xs)"
  by (simp add: in_set_enumerate_eq)

lemma failure_in_element_records:
  "failure l i err \<in> set (element_records l i (ext, Some err))"
  by (simp add: element_records_def)

subsection \<open>The loop without a logger\<close>

lemma UnmarshalJSON_range_unmatched:
  assumes "logger g = None" and "raw \<in> set raws"
    and "unmarshalRegistered L (registeredExtensions g) raw = None"
  shows "UnmarshalJSON_range L i raws r g =
           Panic ''Must call rfc9457.SetLogger() with a *slog.Logger before reaching this check.''"
  using assms(2)
proof (induction raws arbitrary: i r)
  case Nil
  then show ?case by simp
next
  case (Cons x raws)
  show ?case
  proof (cases "unmarshalRegistered L (registeredExtensions g) x")
    case None
    show ?thesis
    proof (cases "jsonv2_Unmarshal_map x")
      case (Inl err)
      then show ?thesis
        by (simp add: unmarshalExtension_failed[OF None Inl] Logger_None[OF assms(1)])
    next
      case (Inr fallback)
      then show ?thesis
        by (simp add: unmarshalExtension_fallback_nologger[OF None Inr assms(1)])
    qed
  next
    case (Some v)
    with assms(3) Cons.prems have "raw \<in> set raws" by auto
    then show ?thesis
      by (simp add: unmarshalExtension_matched[OF Some] Cons.IH)
  qed
qed

lemma UnmarshalJSON_range_matched:
  assumes "\<forall>raw\<in>set raws. unmarshalRegistered L (registeredExtensions g) raw \<noteq> None"
  shows "UnmarshalJSON_range L i raws r g =
           Return (r\<lparr>Extensions := Extensions r @
                       map (\<lambda>raw. Value (the (unmarshalRegistered L (registeredExtensions g) raw))) raws\<rparr>, g)"
  using assms
proof (induction raws arbitrary: i r)
  case Nil
  then show ?case by simp
next
  case (Cons x raws)
  then obtain v where v: "unmarshalRegistered L (registeredExtensions g) x = Some v" by auto
  from Cons.prems have "\<forall>raw\<in>set raws. unmarshalRegistered L (registeredExtensions g) raw \<noteq> None"
    by simp
  from Cons.IH[OF this] show ?case
    by (simp add: unmarshalExtension_matched[OF v] v)
qed

subsection \<open>The registry\<close>

lemma unmarshalRegistered_None_iff:
  "unmarshalRegistered L reg raw = None \<longleftrightarrow> (\<forall>p\<in>set reg. \<not> parses L p raw)"
  by (induction reg) (auto simp: parses_def split: sum.splits)

lemma unmarshalRegistered_first:
  assumes "\<forall>p\<in>set before. \<not> parses L p raw" and "trialParse L A raw = Inr a"
  shows "unmarshalRegistered L (before @ A # after) raw = Some a"
  using assms by (induction before) (auto simp: parses_def split: sum.splits)

lemma registeredExtensions_RegisterExtension:
  "registeredExtensions (RegisterExtension ext g) = registeredExtensions g @ [ext]"
  by (simp add: RegisterExtension_def)

subsection \<open>A failing element in a decode with a logger\<close>

lemma failed_element_in_decode:
  assumes "logger g = Some l"
    and "jsonv2_Unmarshal_responseAlias data = Inr temp"
    and "raws = responseAlias.Extensions temp"
    and "k < length raws"
    and "\<forall>p\<in>set (registeredExtensions g). \<not> parses L p (raws ! k)"
    and "jsonv2_Unmarshal_map (raws ! k) = Inl err"
  shows "\<exists>r' g'. UnmarshalJSON L r data g = Return (None, r', g')
             \<and> failure l k (Errorf ''failed to unmarshal extension at index %d: %w'' k err)
                  \<in> set (records g')
             \<and> (\<forall>j. j < length raws \<and> j \<noteq> k \<longrightarrow>
                   (\<exists>e gj. unmarshalExtension L (raws ! j) j g
                              = Return ((Extensions r' ! j, e), gj)))"
proof -
  let ?reg = "registeredExtensions g"
  let ?e = "Errorf ''failed to unmarshal extension at index %d: %w'' k err"
  let ?exts = "map (\<lambda>(j, raw). fst (resolve L ?reg raw j)) (enumerate 0 raws)"
  let ?recs = "concat (map (\<lambda>(j, raw). element_records l j (resolve L ?reg raw j)) (enumerate 0 raws))"
  have u: "unmarshalRegistered L ?reg (raws ! k) = None"
    using assms(5) by (simp only: unmarshalRegistered_None_iff)
  have a: "unmarshalExtension L (raws ! k) k g = Return ((nil, Some ?e), g)"
    by (rule unmarshalExtension_failed[OF u assms(6)])
  have run: "UnmarshalJSON L r data g =
      Return (None,
        r\<lparr>Type := responseAlias.Type temp, Title := responseAlias.Title temp,
          Status := responseAlias.Status temp, Detail := responseAlias.Detail temp,
          Instance := responseAlias.Instance temp, Extensions := ?exts\<rparr>,
        g\<lparr>records := records g @ ?recs\<rparr>)"
    using UnmarshalJSON_logger[OF assms(1,2), of L r] assms(3) by simp
  have res: "resolve L ?reg (raws ! k) k = (nil, Some ?e)"
    using unmarshalExtension_returns[OF assms(1) a] by simp
  have "failure l k ?e \<in> set (element_records l k (resolve L ?reg (raws ! k) k))"
    using res failure_in_element_records by simp
  with enumerate_member[OF assms(4)] have logged: "failure l k ?e \<in> set ?recs" by force
  have sib: "\<exists>e gj. unmarshalExtension L (raws ! j) j g = Return ((?exts ! j, e), gj)"
    if "j < length raws" for j
  proof -
    obtain x e where xe: "resolve L ?reg (raws ! j) j = (x, e)"
      by (cases "resolve L ?reg (raws ! j) j") auto
    with that have "?exts ! j = x" by (simp add: nth_enumerate_eq)
    with xe show ?thesis
      using unmarshalExtension_resolve[OF assms(1), of L "raws ! j" j] by auto
  qed
  let ?r' = "r\<lparr>Type := responseAlias.Type temp, Title := responseAlias.Title temp,
          Status := responseAlias.Status temp, Detail := responseAlias.Detail temp,
          Instance := responseAlias.Instance temp, Extensions := ?exts\<rparr>"
  let ?g' = "g\<lparr>records := records g @ ?recs\<rparr>"
  have c1: "failure l k ?e \<in> set (records ?g')" using logged by simp
  have c2: "\<forall>j. j < length raws \<and> j \<noteq> k \<longrightarrow>
              (\<exists>e gj. unmarshalExtension L (raws ! j) j g = Return ((Extensions ?r' ! j, e), gj))"
    using sib by simp
  from run c1 c2 show ?thesis by blast
qed

subsection \<open>Errors of the fixed fields\<close>




lemma unmarshal_string_error:
  "unmarshal_string v = Inl err \<Longrightarrow> err = SemanticError ''string''"
  by (cases v) (simp_all add: unmarshal_string_def)

lemma unmarshal_int_error:
  "unmarshal_int v = Inl err \<Longrightarrow> err = SemanticError ''int''"
  by (cases v) (simp_all add: unmarshal_int_def split: if_splits)

lemma unmarshal_values_error:
  "unmarshal_values v = Inl err \<Longrightarrow> err = SemanticError ''[]jsontext.Value''"
  by (cases v) (simp_all add: unmarshal_values_def)

lemma unmarshal_member_error:
  assumes "unmarshal_member m temp = Inl err"
  shows "\<exists>T. err = SemanticError T"
proof -
  obtain name v where m: "m = (name, v)" by (cases m) auto
  from assms m show ?thesis
    by (auto simp: unmarshal_member_def split: if_splits sum.splits
          dest: unmarshal_string_error unmarshal_int_error unmarshal_values_error)
qed

lemma unmarshal_members_error:
  "unmarshal_members ms temp = Inl err \<Longrightarrow> \<exists>T. err = SemanticError T"
  by (induction ms arbitrary: temp) (auto split: sum.splits dest: unmarshal_member_error)



subsection \<open>Encoding and decoding the fixed fields\<close>

lemma unmarshal_int_sint: "unmarshal_int (JInt (sint (w :: 64 word))) = Inr w"
proof -
  have "- (2 ^ 63) \<le> sint w" using sint_ge[of w] by simp
  moreover have "sint w < 2 ^ 63" using sint_lt[of w] by simp
  ultimately show ?thesis by (simp add: unmarshal_int_def)
qed

lemma unmarshal_string_JString: "unmarshal_string (JString s) = Inr s"
  by (simp add: unmarshal_string_def)

lemma utf8_Valid_names:
  "utf8_Valid ''type''" "utf8_Valid ''title''" "utf8_Valid ''status''"
  "utf8_Valid ''detail''" "utf8_Valid ''instance''"
  by (simp_all add: ascii_eval)

definition fixed_members :: "'v Response \<Rightarrow> (string \<times> json) list" where
  "fixed_members r =
     [(''type'', JString (coerce_utf8 (Type r))),
      (''title'', JString (coerce_utf8 (Title r))),
      (''status'', JInt (sint (Status r)))]
     @ (if Detail r = [] then [] else [(''detail'', JString (coerce_utf8 (Detail r)))])
     @ (if Instance r = [] then [] else [(''instance'', JString (coerce_utf8 (Instance r)))])"

lemma marshal_no_extensions:
  assumes "Extensions r = []"
  shows "json_Marshal enc r = Inr (JObject (fixed_members r))"
  using assms by (simp add: json_Marshal_def struct_members_def fixed_members_def)

lemma unmarshal_fixed_members:
  "jsonv2_Unmarshal_responseAlias (JSONText (JObject (fixed_members r)))
   = Inr \<lparr>responseAlias.Type = coerce_utf8 (Type r), responseAlias.Title = coerce_utf8 (Title r),
          responseAlias.Status = Status r, responseAlias.Detail = coerce_utf8 (Detail r),
          responseAlias.Instance = coerce_utf8 (Instance r), responseAlias.Extensions = []\<rparr>"
  by (simp add: fixed_members_def jsonv2_Unmarshal_responseAlias_def unmarshal_member_def
        zero_responseAlias_def unmarshal_int_sint unmarshal_string_JString utf8_Valid_names
        utf8_Valid_coerce)

lemma roundtrip_coerced:
  assumes "Extensions r = []"
  shows "json_Marshal enc r = Inr (JObject (fixed_members r))
           \<and> UnmarshalJSON L r0 (JSONText (JObject (fixed_members r))) g =
               Return (None,
                 r0\<lparr>Type := coerce_utf8 (Type r), Title := coerce_utf8 (Title r),
                    Status := Status r, Detail := coerce_utf8 (Detail r),
                    Instance := coerce_utf8 (Instance r), Extensions := []\<rparr>, g)"
  by (simp add: marshal_no_extensions[OF assms] UnmarshalJSON_def unmarshal_fixed_members)

subsection \<open>Evaluation of the examples\<close>

lemma status_as_string_fails:
  "jsonv2_Unmarshal_responseAlias status_as_string = Inl (SemanticError ''int'')"
  by (simp add: status_as_string_def decode_eval ascii_eval)

lemma json_Valid_code5: "json_Valid code5"
  by (simp add: code5_def ascii_eval)

lemma codeAsString_code5: "\<not> parses structs codeAsString code5"
  by (simp add: structs_eval json_Valid_code5)
    (simp add: codeAsString_def code5_def unmarshal_string_def)

lemma codeMessage_code5:
  "trialParse structs codeMessage code5
     = Inr (Struct [(''code'', IntValue 5), (''message'', StringValue ''x'')])"
  by (simp add: structs_eval json_Valid_code5)
    (simp add: codeMessage_def code5_def unmarshal_string_def unmarshal_int_def)

lemma codeOnly_code5:
  "trialParse structs codeOnly code5 = Inr (Struct [(''code'', IntValue 5)])"
  by (simp add: structs_eval json_Valid_code5)
    (simp add: codeOnly_def code5_def unmarshal_string_def unmarshal_int_def)

lemma document_decoded:
  "list_all json_Valid exts \<Longrightarrow> jsonv2_Unmarshal_responseAlias (document exts) = Inr (decoded exts)"
  by (simp add: document_def decoded_def decode_eval ascii_eval)

lemma json_Valid_code_five: "json_Valid code_five"
  by (simp add: code_five_def ascii_eval)

lemma codeMessage_code_five: "\<not> parses structs codeMessage code_five"
  by (simp add: structs_eval json_Valid_code_five)
    (simp add: codeMessage_def code_five_def unmarshal_int_def)

lemma codeMessage_parses_code5: "parses structs codeMessage code5"
  by (simp add: parses_def codeMessage_code5)

lemma json_Valid_bad: "json_Valid bad"
  by (simp add: bad_def ascii_eval)

lemma codeMessage_bad: "\<not> parses structs codeMessage bad"
  by (simp add: structs_eval json_Valid_bad) (simp add: codeMessage_def bad_def)

lemma map_bad: "jsonv2_Unmarshal_map bad = Inl (SemanticError ''map[string]interface {}'')"
  by (simp add: jsonv2_Unmarshal_map_def json_Valid_bad) (simp add: bad_def)

lemma unmarshalRegistered_codeMessage:
  "\<not> parses structs codeMessage raw \<Longrightarrow> unmarshalRegistered structs [codeMessage] raw = None"
  by (simp add: unmarshalRegistered_None_iff del: unmarshalRegistered.simps)

lemma unmarshalExtension_bad:
  "registeredExtensions g = [codeMessage] \<Longrightarrow>
   unmarshalExtension structs bad index g = Return ((nil, Some (bad_error index)), g)"
  using unmarshalExtension_failed[of structs g bad _ index]
    unmarshalRegistered_codeMessage[OF codeMessage_bad] map_bad
  by (simp add: bad_error_def)

lemma run_code5:
  "registeredExtensions g = [codeMessage] \<Longrightarrow>
   unmarshalExtension structs code5 index g = Return ((Value code5_value, None), g)"
  by (rule unmarshalExtension_matched) (simp add: codeMessage_code5 code5_value_def)

lemma fits_any_code_five: "fits_any code_five"
  by (simp add: code_five_def)

lemma map_code_five: "jsonv2_Unmarshal_map code_five = Inr code_five_map"
  using json_Valid_code_five json_Valid_map[of "[(''code'', JString ''five'')]"]
  by (simp add: code_five_def code_five_map_def)

lemma float64_limit_1e999: "\<not> float64_range 1 999"
proof -
  have e1: "(1024::nat) = 4 * 256" and e2: "(512::nat) = 2 * 256" by simp_all
  have "(2::int) ^ 1024 = (2 ^ 4) ^ 256" by (simp only: e1 power_mult)
  also have "\<dots> \<le> (10 ^ 2) ^ 256" by (rule power_mono) simp_all
  also have "\<dots> = (10::int) ^ 512" by (simp only: e2 power_mult)
  also have "\<dots> \<le> (10::int) ^ 999" by (rule power_increasing) simp_all
  finally have le: "(2::int) ^ 1024 \<le> 10 ^ 999" .
  have "(0::int) \<le> 2 ^ 970" by (rule zero_le_power) simp
  then have d: "(2::int) ^ 1024 - 2 ^ 970 \<le> 2 ^ 1024"
    by (rule diff_left_mono[of 0 _ "2 ^ 1024", simplified diff_0_right])
  from d le have "float64_limit \<le> 10 ^ 999" unfolding float64_limit_def by (rule order_trans)
  then have "\<not> (10 ^ 999 < float64_limit)" by (rule leD)
  moreover have "float64_range 1 999 = ((10::int) ^ 999 < float64_limit)"
    by (simp only: float64_range_def abs_one mult_1 nat_numeral if_True
          of_nat_numeral zero_le_numeral)
  ultimately show ?thesis by blast
qed

lemma json_Valid_code_1e999: "json_Valid code_1e999"
  by (simp add: code_1e999_def ascii_eval)

lemma codeMessage_code_1e999: "\<not> parses structs codeMessage code_1e999"
  by (simp add: structs_eval json_Valid_code_1e999)
    (simp add: codeMessage_def code_1e999_def unmarshal_int_def)

lemma map_code_1e999: "jsonv2_Unmarshal_map code_1e999 = Inl (SemanticError ''float64'')"
  by (simp add: jsonv2_Unmarshal_map_def json_Valid_code_1e999)
    (simp add: code_1e999_def float64_limit_1e999)

lemma run_code_five:
  "registeredExtensions g = [codeMessage] \<Longrightarrow> logger g = Some l \<Longrightarrow>
   unmarshalExtension structs code_five index g
     = Return ((MapStringAny code_five_map, None),
         g\<lparr>records := records g @ [notice l index code_five_map]\<rparr>)"
  using unmarshalExtension_fallback[of structs g code_five code_five_map l index]
    unmarshalRegistered_codeMessage[OF codeMessage_code_five] map_code_five
  by simp

lemma three_decoded:
  "jsonv2_Unmarshal_responseAlias (document [code5, bad, code_five])
     = Inr (decoded [code5, bad, code_five])"
  by (simp add: document_decoded json_Valid_code5 json_Valid_bad json_Valid_code_five)

section \<open>The claims\<close>

text \<open>
  C1, as amended. When a logger is configured and the extensions array has one element
  on which \<^verbatim>\<open>unmarshalExtension\<close> returns an error while every other element resolves,
  the decode returns a nil error and the resulting extension sequence has exactly one
  entry per element of the array: the nil interface at the position of the failed
  element and, at every other position, the value its element resolves to. The failed
  element is not omitted and the sequence is not shorter than the array. In particular
  a three-element array whose second element is malformed yields the three entries
  (resolved element 1, nil, resolved element 3). The second theorem is that run; it
  also shows that without a logger the same decode panics.
\<close>

theorem failed_element_keeps_its_place:
  assumes "logger g = Some l"
    and "jsonv2_Unmarshal_responseAlias data = Inr temp"
    and "raws = responseAlias.Extensions temp"
    and "k < length raws"
    and "length exts = length raws"
    and "unmarshalExtension L (raws ! k) k g = Return ((x, Some err), gk)"
    and "\<forall>j. j < length raws \<and> j \<noteq> k \<longrightarrow>
           (\<exists>gj. unmarshalExtension L (raws ! j) j g = Return ((exts ! j, None), gj))"
  shows "\<exists>r' g'. UnmarshalJSON L r data g = Return (None, r', g')
           \<and> Extensions r' = exts[k := nil]
           \<and> length (Extensions r') = length raws"
proof -
  let ?reg = "registeredExtensions g"
  let ?exts = "map (\<lambda>(j, raw). fst (resolve L ?reg raw j)) (enumerate 0 raws)"
  let ?recs = "concat (map (\<lambda>(j, raw). element_records l j (resolve L ?reg raw j)) (enumerate 0 raws))"
  have run: "UnmarshalJSON L r data g =
      Return (None,
        r\<lparr>Type := responseAlias.Type temp, Title := responseAlias.Title temp,
          Status := responseAlias.Status temp, Detail := responseAlias.Detail temp,
          Instance := responseAlias.Instance temp, Extensions := ?exts\<rparr>,
        g\<lparr>records := records g @ ?recs\<rparr>)"
    using UnmarshalJSON_logger[OF assms(1,2), of L r] assms(3) by simp
  have "?exts = exts[k := nil]"
  proof (rule nth_equalityI)
    show "length ?exts = length (exts[k := nil])" using assms(5) by simp
  next
    fix j assume "j < length ?exts"
    then have j: "j < length raws" by simp
    show "?exts ! j = exts[k := nil] ! j"
    proof (cases "j = k")
      case True
      have "resolve L ?reg (raws ! k) k = (x, Some err)"
        using unmarshalExtension_returns[OF assms(1,6)] by simp
      then have "fst (resolve L ?reg (raws ! k) k) = nil"
        using resolve_error by fastforce
      with True j assms(5) show ?thesis by (simp add: nth_enumerate_eq)
    next
      case False
      with assms(7) j obtain gj where
        "unmarshalExtension L (raws ! j) j g = Return ((exts ! j, None), gj)" by blast
      from unmarshalExtension_returns[OF assms(1) this]
      have "fst (resolve L ?reg (raws ! j) j) = exts ! j" by (metis fst_conv)
      with False j show ?thesis by (simp add: nth_enumerate_eq)
    qed
  qed
  with assms(5) show ?thesis unfolding run by simp
qed

theorem failed_element_keeps_its_place_witness:
  "\<exists>r' g'. UnmarshalJSON structs receiver (document [code5, bad, code_five]) configured
               = Return (None, r', g')
     \<and> Extensions r' = [Value code5_value, nil, MapStringAny code_five_map]
     \<and> length (Extensions r') = 3"
proof -
  let ?raws = "[code5, bad, code_five]"
  let ?exts = "[Value code5_value, nil, MapStringAny code_five_map]"
  have l: "logger configured = Some (slog_New 0)" by (simp add: configured_def)
  have reg: "registeredExtensions configured = [codeMessage]" by (simp add: configured_def)
  have raws: "?raws = responseAlias.Extensions (decoded ?raws)" by (simp add: decoded_def)
  have k: "(1::nat) < length ?raws" by simp
  have len: "length ?exts = length ?raws" by simp
  have fail: "unmarshalExtension structs (?raws ! 1) 1 configured
                = Return ((nil, Some (bad_error 1)), configured)"
    using unmarshalExtension_bad[OF reg, of 1] by simp
  have others: "\<forall>j. j < length ?raws \<and> j \<noteq> 1 \<longrightarrow>
      (\<exists>gj. unmarshalExtension structs (?raws ! j) j configured = Return ((?exts ! j, None), gj))"
  proof (intro allI impI)
    fix j assume "j < length ?raws \<and> j \<noteq> 1"
    then have "j = 0 \<or> j = 2" by auto
    then show "\<exists>gj. unmarshalExtension structs (?raws ! j) j configured = Return ((?exts ! j, None), gj)"
      using run_code5[OF reg, of 0] run_code_five[OF reg l, of 2] by auto
  qed
  show ?thesis
    using failed_element_keeps_its_place[OF l three_decoded raws k len fail others, of receiver]
    by (simp add: numeral_3_eq_3)
qed

theorem failed_element_is_not_skipped:
  "unmarshalExtension structs bad 1 configured = Return ((nil, Some (bad_error 1)), configured)
   \<and> UnmarshalJSON structs receiver (document [code5, bad, code_five]) configured
       = Return (None, three_result, three_state)
   \<and> Extensions three_result = [Value code5_value, nil, MapStringAny code_five_map]
   \<and> length (Extensions three_result) = length [code5, bad, code_five]
   \<and> UnmarshalJSON structs receiver (document [code5, bad, code_five]) unconfigured
       = Panic ''Must call rfc9457.SetLogger() with a *slog.Logger before reaching this check.''"
proof -
  have l: "logger configured = Some (slog_New 0)" by (simp add: configured_def)
  have reg: "registeredExtensions configured = [codeMessage]" by (simp add: configured_def)
  have r0: "resolve structs [codeMessage] code5 0 = (Value code5_value, None)"
    using unmarshalExtension_returns[OF l run_code5[OF reg, of 0]] reg by simp
  have r1: "resolve structs [codeMessage] bad (Suc 0) = (nil, Some (bad_error (Suc 0)))"
    using unmarshalExtension_returns[OF l unmarshalExtension_bad[OF reg, of "Suc 0"]] reg by simp
  have r2: "resolve structs [codeMessage] code_five (Suc (Suc 0)) = (MapStringAny code_five_map, None)"
    using unmarshalExtension_returns[OF l run_code_five[OF reg l, of "Suc (Suc 0)"]] reg by simp
  have u: "UnmarshalJSON structs receiver (document [code5, bad, code_five]) configured
       = Return (None, three_result, three_state)"
    by (simp add: UnmarshalJSON_logger[OF l three_decoded] reg r0 r1 r2 element_records_def
          three_result_def three_state_def decoded_def numeral_2_eq_2)
      (simp add: configured_def)
  have b: "unmarshalExtension structs bad 1 configured = Return ((nil, Some (bad_error 1)), configured)"
    using unmarshalExtension_bad[OF reg, of 1] .
  have n: "UnmarshalJSON structs receiver (document [code5, bad, code_five]) unconfigured
       = Panic ''Must call rfc9457.SetLogger() with a *slog.Logger before reaching this check.''"
  proof -
    have ln: "logger unconfigured = None" by (simp add: unconfigured_def)
    have m: "bad \<in> set (responseAlias.Extensions (decoded [code5, bad, code_five]))"
      by (simp add: decoded_def)
    have un: "unmarshalRegistered structs (registeredExtensions unconfigured) bad = None"
      using unmarshalRegistered_codeMessage[OF codeMessage_bad] by (simp add: unconfigured_def)
    show ?thesis
      using three_decoded UnmarshalJSON_range_unmatched[OF ln m un]
      by (simp add: UnmarshalJSON_def)
  qed
  from u b n show ?thesis by (simp add: three_result_def)
qed

text \<open>
  C2. For every raw element and every state of the registry, \<^verbatim>\<open>unmarshalExtension\<close>
  tries the prototypes in the order of their registration and returns the value of the
  first one whose trial parse succeeds: when every prototype registered before \<open>A\<close>
  fails on the element and \<open>A\<close> parses it to \<open>a\<close>, the result is \<open>a\<close> with a nil error,
  nothing is logged, and the prototypes registered after \<open>A\<close> play no part, whatever
  they are. So a shape \<open>B\<close> registered after \<open>A\<close> never takes an element that \<open>A\<close>
  parses, also when \<open>B\<close> parses it too.
\<close>

theorem first_registered_match_wins:
  assumes "registeredExtensions g = before @ A # after"
    and "\<forall>p\<in>set before. \<not> parses L p raw"
    and "trialParse L A raw = Inr a"
  shows "unmarshalExtension L raw index g = Return ((Value a, None), g)
       \<and> unmarshalExtension L raw index (RegisterExtension B g)
           = Return ((Value a, None), RegisterExtension B g)"
proof -
  have "unmarshalRegistered L (registeredExtensions g) raw = Some a"
    using assms unmarshalRegistered_first[of before L raw A a after] by simp
  moreover have "unmarshalRegistered L (registeredExtensions (RegisterExtension B g)) raw = Some a"
    using assms unmarshalRegistered_first[of before L raw A a "after @ [B]"]
    by (simp add: registeredExtensions_RegisterExtension)
  ultimately show ?thesis by (simp add: unmarshalExtension_matched)
qed

theorem first_registered_match_wins_witness:
  "trialParse structs codeMessage code5
     = Inr (Struct [(''code'', IntValue 5), (''message'', StringValue ''x'')])
   \<and> trialParse structs codeOnly code5 = Inr (Struct [(''code'', IntValue 5)])
   \<and> unmarshalExtension structs code5 0
        (RegisterExtension codeOnly (RegisterExtension codeMessage (RegisterExtension codeAsString fresh)))
       = Return ((Value (Struct [(''code'', IntValue 5), (''message'', StringValue ''x'')]), None),
           RegisterExtension codeOnly (RegisterExtension codeMessage (RegisterExtension codeAsString fresh)))"
proof -
  let ?g = "RegisterExtension codeMessage (RegisterExtension codeAsString fresh)"
  have reg: "registeredExtensions ?g = [codeAsString] @ codeMessage # []"
    by (simp add: RegisterExtension_def fresh_def)
  have rej: "\<forall>p\<in>set [codeAsString]. \<not> parses structs p code5"
    using codeAsString_code5 by simp
  show ?thesis
    using first_registered_match_wins[OF reg rej codeMessage_code5, of 0 codeOnly]
      codeMessage_code5 codeOnly_code5
    by simp
qed

text \<open>
  C3, as amended. When a logger is configured, every extension element that is a
  well-formed JSON object with all its numbers within the range of \<^verbatim>\<open>float64\<close> and that
  is matched by no registered prototype resolves to the generic mapping of the object:
  its key-value pairs are the members of the object. Exactly one record, the fallback
  notice for the element with its index and the mapping, is written for it, by
  \<^verbatim>\<open>unmarshalExtension\<close>; the loop of \<^verbatim>\<open>UnmarshalJSON\<close> adds the mapping to the extensions
  and writes nothing more. The third theorem shows the two ways in which the claim
  without these conditions fails: without a logger such an element makes
  \<^verbatim>\<open>unmarshalExtension\<close> panic, and with a logger the well-formed object
  \<^verbatim>\<open>{"code":1e999}\<close>, which no prototype matches, fails the fallback parse, so that
  \<^verbatim>\<open>unmarshalExtension\<close> returns the nil interface and an error, and writes no notice.
\<close>

theorem unmatched_object_falls_back:
  assumes "logger g = Some l"
    and "json_Valid (JObject ms)"
    and "fits_any (JObject ms)"
    and "\<forall>p\<in>set (registeredExtensions g). \<not> parses L p (JObject ms)"
  shows "unmarshalExtension L (JObject ms) index g
           = Return ((MapStringAny (map_of ms), None),
               g\<lparr>records := records g @ [notice l index (map_of ms)]\<rparr>)
       \<and> Map.graph (map_of ms) = set ms
       \<and> UnmarshalJSON_range L index [JObject ms] r g
           = Return (r\<lparr>Extensions := Extensions r @ [MapStringAny (map_of ms)]\<rparr>,
               g\<lparr>records := records g @ [notice l index (map_of ms)]\<rparr>)"
proof -
  have u: "unmarshalRegistered L (registeredExtensions g) (JObject ms) = None"
    using assms(4) by (simp add: unmarshalRegistered_None_iff)
  have m: "jsonv2_Unmarshal_map (JObject ms) = Inr (map_of ms)"
    using assms(2,3) by (rule json_Valid_map)
  have a: "unmarshalExtension L (JObject ms) index g
           = Return ((MapStringAny (map_of ms), None),
               g\<lparr>records := records g @ [notice l index (map_of ms)]\<rparr>)"
    by (rule unmarshalExtension_fallback[OF u m assms(1)])
  have b: "Map.graph (map_of ms) = set ms"
    using assms(2) by (simp add: graph_map_of_if_distinct_dom)
  have c: "UnmarshalJSON_range L index [JObject ms] r g
           = Return (r\<lparr>Extensions := Extensions r @ [MapStringAny (map_of ms)]\<rparr>,
               g\<lparr>records := records g @ [notice l index (map_of ms)]\<rparr>)"
    by (simp add: UnmarshalJSON_range_logger[OF assms(1)] resolve_unmatched[OF u m]
          element_records_def del: UnmarshalJSON_range.simps)
  from a b c show ?thesis by simp
qed

theorem unmatched_object_falls_back_witness:
  "json_Valid code_five \<and> fits_any code_five \<and> \<not> parses structs codeMessage code_five
   \<and> unmarshalExtension structs code_five 2 configured
       = Return ((MapStringAny (map_of [(''code'', JString ''five'')]), None),
           configured\<lparr>records := [notice (slog_New 0) 2 (map_of [(''code'', JString ''five'')])]\<rparr>)"
proof -
  have l: "logger configured = Some (slog_New 0)" by (simp add: configured_def)
  have v: "json_Valid (JObject [(''code'', JString ''five'')])"
    using json_Valid_code_five by (simp add: code_five_def)
  have f: "fits_any (JObject [(''code'', JString ''five'')])" by simp
  have p: "\<forall>p\<in>set (registeredExtensions configured).
             \<not> parses structs p (JObject [(''code'', JString ''five'')])"
    using codeMessage_code_five by (simp add: configured_def code_five_def)
  have "unmarshalExtension structs code_five 2 configured
       = Return ((MapStringAny (map_of [(''code'', JString ''five'')]), None),
           configured\<lparr>records := [notice (slog_New 0) 2 (map_of [(''code'', JString ''five'')])]\<rparr>)"
    using unmatched_object_falls_back[OF l v f p, of 2]
    by (simp add: code_five_def configured_def)
  with json_Valid_code_five fits_any_code_five codeMessage_code_five show ?thesis by simp
qed

theorem unmatched_object_not_resolved:
  "json_Valid code_five
   \<and> \<not> parses structs codeMessage code_five
   \<and> unmarshalExtension structs code_five 0 unconfigured
       = Panic ''Must call rfc9457.SetLogger() with a *slog.Logger before reaching this check.''
   \<and> json_Valid code_1e999
   \<and> \<not> parses structs codeMessage code_1e999
   \<and> unmarshalExtension structs code_1e999 0 configured
       = Return ((nil, Some (Errorf ''failed to unmarshal extension at index %d: %w'' 0
                              (SemanticError ''float64''))), configured)"
proof -
  have "\<forall>p\<in>set (registeredExtensions unconfigured). \<not> parses structs p code_five"
    using codeMessage_code_five by (simp add: unconfigured_def)
  then have u: "unmarshalRegistered structs (registeredExtensions unconfigured) code_five = None"
    by (simp only: unmarshalRegistered_None_iff)
  have l: "logger unconfigured = None" by (simp add: unconfigured_def)
  have a: "unmarshalExtension structs code_five 0 unconfigured
       = Panic ''Must call rfc9457.SetLogger() with a *slog.Logger before reaching this check.''"
    by (rule unmarshalExtension_fallback_nologger[OF u map_code_five l])
  have "\<forall>p\<in>set (registeredExtensions configured). \<not> parses structs p code_1e999"
    using codeMessage_code_1e999 by (simp add: configured_def)
  then have u': "unmarshalRegistered structs (registeredExtensions configured) code_1e999 = None"
    by (simp only: unmarshalRegistered_None_iff)
  have b: "unmarshalExtension structs code_1e999 0 configured
       = Return ((nil, Some (Errorf ''failed to unmarshal extension at index %d: %w'' 0
                              (SemanticError ''float64''))), configured)"
    by (rule unmarshalExtension_failed[OF u' map_code_1e999])
  from json_Valid_code_five codeMessage_code_five a json_Valid_code_1e999
    codeMessage_code_1e999 b
  show ?thesis by simp
qed



text \<open>
  C5. With no logger configured, a decode whose fixed fields parse and in which some
  extension element is matched by no registered prototype panics, with the message of
  \<^verbatim>\<open>EnsureLogger\<close>, and returns nothing: such an element either reaches the fallback
  notice or fails the fallback parse, and both paths call \<^verbatim>\<open>Logger()\<close>. And when a
  logger is configured, or when every extension element is matched by some registered
  prototype, the decode returns (an error or a document) and does not panic.
\<close>

theorem missing_logger_panics:
  "(logger g = None \<and> jsonv2_Unmarshal_responseAlias data = Inr temp
      \<and> raw \<in> set (responseAlias.Extensions temp)
      \<and> (\<forall>p\<in>set (registeredExtensions g). \<not> parses L p raw)
    \<longrightarrow> UnmarshalJSON L r data g = Panic ''Must call rfc9457.SetLogger() with a *slog.Logger before reaching this check.'')
   \<and> (logger g \<noteq> None
        \<or> (\<forall>temp. jsonv2_Unmarshal_responseAlias data = Inr temp \<longrightarrow>
              (\<forall>raw\<in>set (responseAlias.Extensions temp).
                 \<exists>p\<in>set (registeredExtensions g). parses L p raw))
    \<longrightarrow> (\<exists>err r' g'. UnmarshalJSON L r data g = Return (err, r', g')))"
proof (intro conjI impI)
  assume a: "logger g = None \<and> jsonv2_Unmarshal_responseAlias data = Inr temp
      \<and> raw \<in> set (responseAlias.Extensions temp)
      \<and> (\<forall>p\<in>set (registeredExtensions g). \<not> parses L p raw)"
  then have u: "unmarshalRegistered L (registeredExtensions g) raw = None"
    by (simp add: unmarshalRegistered_None_iff)
  from a have l: "logger g = None" and m: "raw \<in> set (responseAlias.Extensions temp)"
    by simp_all
  from a show "UnmarshalJSON L r data g = Panic ''Must call rfc9457.SetLogger() with a *slog.Logger before reaching this check.''"
    by (simp add: UnmarshalJSON_def UnmarshalJSON_range_unmatched[OF l m u])
next
  assume b: "logger g \<noteq> None
        \<or> (\<forall>temp. jsonv2_Unmarshal_responseAlias data = Inr temp \<longrightarrow>
              (\<forall>raw\<in>set (responseAlias.Extensions temp).
                 \<exists>p\<in>set (registeredExtensions g). parses L p raw))"
  show "\<exists>err r' g'. UnmarshalJSON L r data g = Return (err, r', g')"
  proof (cases "jsonv2_Unmarshal_responseAlias data")
    case (Inl err)
    then show ?thesis by (simp add: UnmarshalJSON_def)
  next
    case (Inr temp)
    from b show ?thesis
    proof
      assume "logger g \<noteq> None"
      then obtain l where "logger g = Some l" by auto
      with Inr show ?thesis
        by (simp add: UnmarshalJSON_def UnmarshalJSON_range_logger)
    next
      assume "\<forall>temp. jsonv2_Unmarshal_responseAlias data = Inr temp \<longrightarrow>
              (\<forall>raw\<in>set (responseAlias.Extensions temp).
                 \<exists>p\<in>set (registeredExtensions g). parses L p raw)"
      with Inr have "\<forall>raw\<in>set (responseAlias.Extensions temp).
          unmarshalRegistered L (registeredExtensions g) raw \<noteq> None"
        by (auto simp: unmarshalRegistered_None_iff)
      with Inr show ?thesis
        by (simp add: UnmarshalJSON_def UnmarshalJSON_range_matched)
    qed
  qed
qed

theorem missing_logger_panics_witness:
  "UnmarshalJSON structs receiver (document [code_five]) unconfigured
     = Panic ''Must call rfc9457.SetLogger() with a *slog.Logger before reaching this check.''
   \<and> (\<exists>err r' g'. UnmarshalJSON structs receiver (document [code_five]) configured = Return (err, r', g'))
   \<and> (\<exists>err r' g'. UnmarshalJSON structs receiver (document [code5]) unconfigured = Return (err, r', g'))"
proof -
  have d1: "jsonv2_Unmarshal_responseAlias (document [code_five]) = Inr (decoded [code_five])"
    by (simp add: document_decoded json_Valid_code_five)
  have d2: "jsonv2_Unmarshal_responseAlias (document [code5]) = Inr (decoded [code5])"
    by (simp add: document_decoded json_Valid_code5)
  have a: "UnmarshalJSON structs receiver (document [code_five]) unconfigured
     = Panic ''Must call rfc9457.SetLogger() with a *slog.Logger before reaching this check.''"
    using missing_logger_panics[of unconfigured "document [code_five]" "decoded [code_five]"
        code_five structs receiver] d1 codeMessage_code_five
    by (simp add: unconfigured_def decoded_def)
  have b: "\<exists>err r' g'. UnmarshalJSON structs receiver (document [code_five]) configured = Return (err, r', g')"
    using missing_logger_panics[of configured "document [code_five]" _ _ structs receiver]
    by (simp add: configured_def)
  have c: "\<exists>err r' g'. UnmarshalJSON structs receiver (document [code5]) unconfigured = Return (err, r', g')"
    using missing_logger_panics[of unconfigured "document [code5]" _ _ structs receiver] d2
      codeMessage_parses_code5
    by (simp add: unconfigured_def decoded_def)
  from a b c show ?thesis by simp
qed

text \<open>
  C6, as amended. For every element matched by no registered prototype whose fallback
  parse fails, in every package state, with or without a logger, \<^verbatim>\<open>unmarshalExtension\<close>
  returns the nil interface and an error that wraps the error of the fallback parse and
  carries the index of the element; the package state is unchanged. And when a logger is
  configured and the element stands at that index in the extensions array of a
  document, the failure is fatal to that element only: the decode returns a nil error,
  the wrapped error is written to the logger under the index of the element, and the
  entry of every sibling element is the value that \<^verbatim>\<open>unmarshalExtension\<close> returns for
  that sibling on its own. Without a logger the failing element makes the whole decode
  panic and no sibling is resolved, which the third theorem shows.
\<close>

theorem fallback_failure_is_local:
  assumes "\<forall>p\<in>set (registeredExtensions g). \<not> parses L p raw"
    and "jsonv2_Unmarshal_map raw = Inl err"
  shows "unmarshalExtension L raw k g
           = Return ((nil, Some (Errorf ''failed to unmarshal extension at index %d: %w'' k err)), g)
       \<and> Unwrap (Errorf ''failed to unmarshal extension at index %d: %w'' k err) = Some err
       \<and> (logger g = Some l
            \<and> jsonv2_Unmarshal_responseAlias data = Inr temp
            \<and> k < length (responseAlias.Extensions temp)
            \<and> responseAlias.Extensions temp ! k = raw
           \<longrightarrow>
            (\<exists>r' g'. UnmarshalJSON L r data g = Return (None, r', g')
               \<and> failure l k (Errorf ''failed to unmarshal extension at index %d: %w'' k err)
                    \<in> set (records g')
               \<and> (\<forall>j. j < length (responseAlias.Extensions temp) \<and> j \<noteq> k \<longrightarrow>
                     (\<exists>e gj. unmarshalExtension L (responseAlias.Extensions temp ! j) j g
                                = Return ((Extensions r' ! j, e), gj)))))"
proof (intro conjI impI)
  have u: "unmarshalRegistered L (registeredExtensions g) raw = None"
    using assms(1) by (simp only: unmarshalRegistered_None_iff)
  show "unmarshalExtension L raw k g
          = Return ((nil, Some (Errorf ''failed to unmarshal extension at index %d: %w'' k err)), g)"
    by (rule unmarshalExtension_failed[OF u assms(2)])
next
  show "Unwrap (Errorf ''failed to unmarshal extension at index %d: %w'' k err) = Some err"
    by simp
next
  assume c: "logger g = Some l
            \<and> jsonv2_Unmarshal_responseAlias data = Inr temp
            \<and> k < length (responseAlias.Extensions temp)
            \<and> responseAlias.Extensions temp ! k = raw"
  then have l: "logger g = Some l"
    and d: "jsonv2_Unmarshal_responseAlias data = Inr temp"
    and k: "k < length (responseAlias.Extensions temp)"
    and raw: "responseAlias.Extensions temp ! k = raw"
    by simp_all
  have p: "\<forall>p\<in>set (registeredExtensions g). \<not> parses L p (responseAlias.Extensions temp ! k)"
    using assms(1) raw by simp
  have m: "jsonv2_Unmarshal_map (responseAlias.Extensions temp ! k) = Inl err"
    using assms(2) raw by simp
  show "\<exists>r' g'. UnmarshalJSON L r data g = Return (None, r', g')
               \<and> failure l k (Errorf ''failed to unmarshal extension at index %d: %w'' k err)
                    \<in> set (records g')
               \<and> (\<forall>j. j < length (responseAlias.Extensions temp) \<and> j \<noteq> k \<longrightarrow>
                     (\<exists>e gj. unmarshalExtension L (responseAlias.Extensions temp ! j) j g
                                = Return ((Extensions r' ! j, e), gj)))"
    by (rule failed_element_in_decode[OF l d refl k p m])
qed

theorem fallback_failure_is_local_witness:
  "unmarshalExtension structs bad 0 unconfigured = Return ((nil, Some (bad_error 0)), unconfigured)
   \<and> unmarshalExtension structs bad 0 configured = Return ((nil, Some (bad_error 0)), configured)
   \<and> Unwrap (bad_error 0) = Some (SemanticError ''map[string]interface {}'')
   \<and> (\<exists>r' g'. UnmarshalJSON structs receiver (document [bad, code5]) configured = Return (None, r', g')
          \<and> failure (slog_New 0) 0 (bad_error 0) \<in> set (records g')
          \<and> (\<exists>e gj. unmarshalExtension structs code5 1 configured = Return ((Extensions r' ! 1, e), gj)))"
proof -
  let ?raws = "[bad, code5]"
  have l: "logger configured = Some (slog_New 0)" by (simp add: configured_def)
  have d: "jsonv2_Unmarshal_responseAlias (document ?raws) = Inr (decoded ?raws)"
    by (simp add: document_decoded json_Valid_code5 json_Valid_bad)
  have p: "\<forall>p\<in>set (registeredExtensions configured). \<not> parses structs p bad"
    using codeMessage_bad by (simp add: configured_def)
  have p': "\<forall>p\<in>set (registeredExtensions unconfigured). \<not> parses structs p bad"
    using codeMessage_bad by (simp add: unconfigured_def)
  have a: "unmarshalExtension structs bad 0 unconfigured = Return ((nil, Some (bad_error 0)), unconfigured)"
    using fallback_failure_is_local[OF p' map_bad, of 0] by (simp add: bad_error_def)
  have b: "unmarshalExtension structs bad 0 configured = Return ((nil, Some (bad_error 0)), configured)
     \<and> Unwrap (bad_error 0) = Some (SemanticError ''map[string]interface {}'')
     \<and> (\<exists>r' g'. UnmarshalJSON structs receiver (document [bad, code5]) configured = Return (None, r', g')
          \<and> failure (slog_New 0) 0 (bad_error 0) \<in> set (records g')
          \<and> (\<exists>e gj. unmarshalExtension structs code5 1 configured = Return ((Extensions r' ! 1, e), gj)))"
    using fallback_failure_is_local[OF p map_bad, of 0 "slog_New 0" "document ?raws" "decoded ?raws" receiver]
      l d
    by (auto simp: bad_error_def decoded_def)
  from a b show ?thesis by simp
qed

theorem fallback_failure_without_logger:
  "jsonv2_Unmarshal_map bad = Inl (SemanticError ''map[string]interface {}'')
   \<and> \<not> parses structs codeMessage bad
   \<and> parses structs codeMessage code5
   \<and> jsonv2_Unmarshal_responseAlias (document [bad, code5]) = Inr (decoded [bad, code5])
   \<and> UnmarshalJSON structs receiver (document [bad, code5]) unconfigured
       = Panic ''Must call rfc9457.SetLogger() with a *slog.Logger before reaching this check.''"
proof -
  have d: "jsonv2_Unmarshal_responseAlias (document [bad, code5]) = Inr (decoded [bad, code5])"
    by (simp add: document_decoded json_Valid_code5 json_Valid_bad)
  have l: "logger unconfigured = None" by (simp add: unconfigured_def)
  have m: "bad \<in> set (responseAlias.Extensions (decoded [bad, code5]))" by (simp add: decoded_def)
  have u: "unmarshalRegistered structs (registeredExtensions unconfigured) bad = None"
    using unmarshalRegistered_codeMessage[OF codeMessage_bad] by (simp add: unconfigured_def)
  have "UnmarshalJSON structs receiver (document [bad, code5]) unconfigured
       = Panic ''Must call rfc9457.SetLogger() with a *slog.Logger before reaching this check.''"
    using d UnmarshalJSON_range_unmatched[OF l m u] by (simp add: UnmarshalJSON_def)
  with d map_bad codeMessage_bad codeMessage_parses_code5 show ?thesis by simp
qed

text \<open>
  C7. A document with empty detail, empty instance and no extensions encodes to a JSON
  object whose member names are exactly \<open>type\<close>, \<open>title\<close>, \<open>status\<close>. And whenever a
  document encodes, the result is an object whose member names are \<open>type\<close>, \<open>title\<close>,
  \<open>status\<close>, then \<open>detail\<close>, \<open>instance\<close>, \<open>extensions\<close>, in this order, each of the last
  three present exactly when the field is not empty.
\<close>

theorem marshal_member_names:
  "(Detail r = [] \<and> Instance r = [] \<and> Extensions r = [] \<longrightarrow>
      (\<exists>ms. json_Marshal enc r = Inr (JObject ms)
         \<and> map fst ms = [''type'', ''title'', ''status'']))
   \<and> (json_Marshal enc r = Inr v \<longrightarrow>
      (\<exists>ms. v = JObject ms
         \<and> map fst ms =
             [''type'', ''title'', ''status'']
             @ (if Detail r = [] then [] else [''detail''])
             @ (if Instance r = [] then [] else [''instance''])
             @ (if Extensions r = [] then [] else [''extensions''])))"
  by (auto simp: json_Marshal_def struct_members_def split: sum.splits)

theorem marshal_member_names_witness:
  "(\<exists>ms. json_Marshal marshal_example minimal = Inr (JObject ms)
         \<and> map fst ms = [''type'', ''title'', ''status''])
   \<and> json_Marshal marshal_example (receiver\<lparr>Instance := []\<rparr>)
       = Inr (JObject [(''type'', JString ''about:blank''), (''title'', JString ''Earlier''),
               (''status'', JInt 500), (''detail'', JString ''kept''), (''extensions'', JArray [JNull])])
   \<and> (\<exists>ms. JObject [(''type'', JString ''about:blank''), (''title'', JString ''Earlier''),
               (''status'', JInt 500), (''detail'', JString ''kept''), (''extensions'', JArray [JNull])]
              = JObject ms
         \<and> map fst ms = [''type'', ''title'', ''status'', ''detail'', ''extensions''])"
proof -
  have m: "json_Marshal marshal_example (receiver\<lparr>Instance := []\<rparr>)
       = Inr (JObject [(''type'', JString ''about:blank''), (''title'', JString ''Earlier''),
               (''status'', JInt 500), (''detail'', JString ''kept''), (''extensions'', JArray [JNull])])"
    by (simp add: json_Marshal_def struct_members_def receiver_def marshal_example_def
          coerce_utf8_Valid ascii_eval)
  show ?thesis
    using marshal_member_names[of minimal marshal_example]
      marshal_member_names[of "receiver\<lparr>Instance := []\<rparr>" marshal_example, THEN conjunct2, rule_format, OF m] m
    by (simp add: minimal_def receiver_def)
qed

text \<open>
  C8, as amended. For every document with no extensions whose type, title, detail and
  instance are valid UTF-8, the document encodes, and decoding the encoding (into any
  receiver, in any package state) returns no error and yields a document with the same
  type, title, status, detail and instance. The encoder replaces each byte of a string
  that starts no well-formed UTF-8 sequence by U+FFFD, so a string that is not valid
  UTF-8 does not come back: the second theorem encodes and decodes a document whose type
  is the byte FF and gets the type EF BF BD.
\<close>

theorem roundtrip_fixed_fields:
  assumes "Extensions r = []"
    and "utf8_Valid (Type r)" "utf8_Valid (Title r)" "utf8_Valid (Detail r)" "utf8_Valid (Instance r)"
  shows "\<exists>v r'. json_Marshal enc r = Inr v
           \<and> UnmarshalJSON L r0 (JSONText v) g = Return (None, r', g)
           \<and> Type r' = Type r \<and> Title r' = Title r \<and> Status r' = Status r
           \<and> Detail r' = Detail r \<and> Instance r' = Instance r"
  using roundtrip_coerced[OF assms(1), of enc L r0 g] assms(2-5)
  by (auto simp: coerce_utf8_Valid)

theorem roundtrip_fixed_fields_witness:
  "Extensions minimal = [] \<and> utf8_Valid (Type minimal) \<and> utf8_Valid (Title minimal)
   \<and> utf8_Valid (Detail minimal) \<and> utf8_Valid (Instance minimal)
   \<and> (\<exists>v r'. json_Marshal marshal_example minimal = Inr v
           \<and> UnmarshalJSON structs receiver (JSONText v) unconfigured = Return (None, r', unconfigured)
           \<and> Type r' = Type minimal \<and> Title r' = Title minimal \<and> Status r' = Status minimal
           \<and> Detail r' = Detail minimal \<and> Instance r' = Instance minimal)"
proof -
  have e: "Extensions minimal = []" by (simp add: minimal_def)
  have v: "utf8_Valid (Type minimal)" "utf8_Valid (Title minimal)"
    "utf8_Valid (Detail minimal)" "utf8_Valid (Instance minimal)"
    by (simp_all add: minimal_def ascii_eval)
  show ?thesis
    using e v roundtrip_fixed_fields[OF e v, of marshal_example structs receiver unconfigured]
    by simp
qed

theorem roundtrip_invalid_utf8:
  "json_Marshal marshal_example invalid_type
     = Inr (JObject [(''type'', JString RuneError), (''title'', JString ''Test''), (''status'', JInt 422)])
   \<and> UnmarshalJSON structs receiver
        (JSONText (JObject [(''type'', JString RuneError), (''title'', JString ''Test''), (''status'', JInt 422)]))
        configured
       = Return (None,
           receiver\<lparr>Type := RuneError, Title := ''Test'', Status := 422, Detail := [],
             Instance := [], Extensions := []\<rparr>, configured)
   \<and> Type invalid_type \<noteq> RuneError"
proof -
  have e: "Extensions invalid_type = []" by (simp add: invalid_type_def)
  have c: "coerce_utf8 [char_of (0xFF :: nat)] = RuneError"
    by (simp add: utf8_eval coerce_utf8.simps)
  have t: "coerce_utf8 ''Test'' = ''Test''"
    by (simp add: coerce_utf8_Valid ascii_eval)
  have fm: "fixed_members invalid_type
     = [(''type'', JString RuneError), (''title'', JString ''Test''), (''status'', JInt 422)]"
    by (simp add: fixed_members_def invalid_type_def c t)
  have m: "json_Marshal marshal_example invalid_type
     = Inr (JObject [(''type'', JString RuneError), (''title'', JString ''Test''), (''status'', JInt 422)])"
    using marshal_no_extensions[OF e, of marshal_example] fm by simp
  have u: "UnmarshalJSON structs receiver
        (JSONText (JObject [(''type'', JString RuneError), (''title'', JString ''Test''), (''status'', JInt 422)]))
        configured
       = Return (None,
           receiver\<lparr>Type := RuneError, Title := ''Test'', Status := 422, Detail := [],
             Instance := [], Extensions := []\<rparr>, configured)"
    using roundtrip_coerced[OF e, of marshal_example structs receiver configured] fm
    by (simp add: invalid_type_def c t)
  have n: "Type invalid_type \<noteq> RuneError"
    by (simp add: invalid_type_def RuneError_def)
  from m u n show ?thesis by simp
qed

text \<open>
  C9, as amended. When a logger is configured and the fixed fields of the input
  unmarshal, \<^verbatim>\<open>UnmarshalJSON\<close> returns a nil error however many extension elements fail
  to resolve. The decoded extension sequence has one entry per element of the input
  array; for each element on which \<^verbatim>\<open>unmarshalExtension\<close> returns an error, the entry at
  its index is the nil interface and the error is in the records of the logger, under
  that index. Without a logger the first failing element makes the decode panic, which
  the third theorem shows.
\<close>

theorem extension_failures_are_logged:
  assumes "logger g = Some l"
    and "jsonv2_Unmarshal_responseAlias data = Inr temp"
  shows "\<exists>r' g'. UnmarshalJSON L r data g = Return (None, r', g')
           \<and> length (Extensions r') = length (responseAlias.Extensions temp)
           \<and> (\<forall>i ext err gi. i < length (responseAlias.Extensions temp)
                 \<and> unmarshalExtension L (responseAlias.Extensions temp ! i) i g
                      = Return ((ext, Some err), gi)
                 \<longrightarrow> Extensions r' ! i = nil \<and> failure l i err \<in> set (records g'))"
proof -
  let ?raws = "responseAlias.Extensions temp"
  let ?reg = "registeredExtensions g"
  let ?exts = "map (\<lambda>(j, raw). fst (resolve L ?reg raw j)) (enumerate 0 ?raws)"
  let ?recs = "concat (map (\<lambda>(j, raw). element_records l j (resolve L ?reg raw j)) (enumerate 0 ?raws))"
  have run: "UnmarshalJSON L r data g =
      Return (None,
        r\<lparr>Type := responseAlias.Type temp, Title := responseAlias.Title temp,
          Status := responseAlias.Status temp, Detail := responseAlias.Detail temp,
          Instance := responseAlias.Instance temp, Extensions := ?exts\<rparr>,
        g\<lparr>records := records g @ ?recs\<rparr>)"
    by (rule UnmarshalJSON_logger[OF assms])
  have each: "?exts ! i = nil \<and> failure l i err \<in> set (records g @ ?recs)"
    if i: "i < length ?raws"
      and u: "unmarshalExtension L (?raws ! i) i g = Return ((ext, Some err), gi)"
    for i ext err gi
  proof -
    have res: "resolve L ?reg (?raws ! i) i = (ext, Some err)"
      using unmarshalExtension_returns[OF assms(1) u] by simp
    then have "ext = nil" by (rule resolve_error)
    with res i have a: "?exts ! i = nil" by (simp add: nth_enumerate_eq)
    have "failure l i err \<in> set (element_records l i (resolve L ?reg (?raws ! i) i))"
      using res failure_in_element_records by simp
    with enumerate_member[OF i] have "failure l i err \<in> set ?recs" by force
    with a show ?thesis by simp
  qed
  show ?thesis
    unfolding run using each by (intro exI conjI) (rule refl, simp, auto)
qed

theorem extension_failures_are_logged_witness:
  "logger configured = Some (slog_New 0)
   \<and> jsonv2_Unmarshal_responseAlias (document [code5, bad]) = Inr (decoded [code5, bad])
   \<and> unmarshalExtension structs bad 1 configured = Return ((nil, Some (bad_error 1)), configured)
   \<and> (\<exists>r' g'. UnmarshalJSON structs receiver (document [code5, bad]) configured = Return (None, r', g')
          \<and> length (Extensions r') = 2
          \<and> Extensions r' ! 1 = nil
          \<and> failure (slog_New 0) 1 (bad_error 1) \<in> set (records g'))"
proof -
  have l: "logger configured = Some (slog_New 0)" by (simp add: configured_def)
  have d: "jsonv2_Unmarshal_responseAlias (document [code5, bad]) = Inr (decoded [code5, bad])"
    by (simp add: document_decoded json_Valid_code5 json_Valid_bad)
  have u: "unmarshalExtension structs bad 1 configured = Return ((nil, Some (bad_error 1)), configured)"
    by (simp add: unmarshalExtension_bad configured_def)
  from extension_failures_are_logged[OF l d, of structs receiver]
  obtain r' g' where run: "UnmarshalJSON structs receiver (document [code5, bad]) configured = Return (None, r', g')"
    and len: "length (Extensions r') = length (responseAlias.Extensions (decoded [code5, bad]))"
    and each: "\<forall>i ext err gi. i < length (responseAlias.Extensions (decoded [code5, bad]))
                 \<and> unmarshalExtension structs (responseAlias.Extensions (decoded [code5, bad]) ! i) i configured
                      = Return ((ext, Some err), gi)
                 \<longrightarrow> Extensions r' ! i = nil \<and> failure (slog_New 0) i err \<in> set (records g')"
    by blast
  from each[rule_format, of 1 nil "bad_error 1" configured] u
  have "Extensions r' ! 1 = nil \<and> failure (slog_New 0) 1 (bad_error 1) \<in> set (records g')"
    by (simp add: decoded_def)
  with run len l d u show ?thesis by (simp add: decoded_def)
qed

theorem failed_extension_without_logger:
  "jsonv2_Unmarshal_responseAlias (document [bad]) = Inr (decoded [bad])
   \<and> UnmarshalJSON structs receiver (document [bad]) unconfigured
       = Panic ''Must call rfc9457.SetLogger() with a *slog.Logger before reaching this check.''"
proof -
  have d: "jsonv2_Unmarshal_responseAlias (document [bad]) = Inr (decoded [bad])"
    by (simp add: document_decoded json_Valid_bad)
  have l: "logger unconfigured = None" by (simp add: unconfigured_def)
  have m: "bad \<in> set (responseAlias.Extensions (decoded [bad]))" by (simp add: decoded_def)
  have u: "unmarshalRegistered structs (registeredExtensions unconfigured) bad = None"
    using unmarshalRegistered_codeMessage[OF codeMessage_bad] by (simp add: unconfigured_def)
  show ?thesis
    using d UnmarshalJSON_range_unmatched[OF l m u]
    by (simp add: UnmarshalJSON_def)
qed

text \<open>
  C10. When the decode of the fixed fields fails, \<^verbatim>\<open>UnmarshalJSON\<close> returns that error
  and the receiver is as it was before the call: type, title, status, detail, instance
  and extensions keep their values (and the package state is unchanged).
\<close>

theorem failed_decode_keeps_receiver:
  assumes "jsonv2_Unmarshal_responseAlias data = Inl err"
  shows "UnmarshalJSON L r data g = Return (Some err, r, g)"
  using assms by (simp add: UnmarshalJSON_def)

theorem failed_decode_keeps_receiver_witness:
  "jsonv2_Unmarshal_responseAlias status_as_string = Inl (SemanticError ''int'')
   \<and> UnmarshalJSON structs receiver status_as_string unconfigured
       = Return (Some (SemanticError ''int''), receiver, unconfigured)"
  using status_as_string_fails
    failed_decode_keeps_receiver[OF status_as_string_fails, of structs receiver unconfigured]
  by simp

end
